theory Spec2Isabelle
  imports Main "HOL-Library.Char_ord" "HOL-Library.List_Lexorder" "HOL-Library.Mapping"
    "HOL-Library.AList_Mapping" "HOL-Library.Multiset" "HOL-Library.Word"
begin

section \<open>Buscador.cpp: the data model\<close>

text \<open>
  \<^verbatim>\<open>struct Correo { int id; string remitente; string asunto; string cuerpo; string fecha; };\<close>

  The field \<^verbatim>\<open>id\<close> is called \<open>idCorreo\<close> here, because \<open>id\<close> is the identity function of
  HOL. A \<^verbatim>\<open>std::string\<close> is a list of 8-bit characters. The C++ \<^verbatim>\<open>int\<close> is a 32-bit
  word in two's complement, read as a signed number by \<open>sint\<close>. The only arithmetic of
  the program on it is \<^verbatim>\<open>nextID++\<close>, which wraps around as the compiled program
  does: from 2147483647 to -2147483648, and after \<open>2^32\<close> steps back to where it was.
\<close>

type_synonym entero = "32 word"

record Correo =
  idCorreo :: entero
  remitente :: string
  asunto :: string
  cuerpo :: string
  fecha :: string

text \<open>
  \<^verbatim>\<open>struct NodoCorreo { Correo data; NodoCorreo* izq; NodoCorreo* der; };\<close>

  A null pointer is \<open>Nulo\<close>. Every node is allocated by \<^verbatim>\<open>new\<close> inside \<^verbatim>\<open>insertar\<close> and is
  reachable from one parent only, so the tree is a value without sharing.
\<close>

datatype NodoCorreo = Nulo | Nodo (data: Correo) (izq: NodoCorreo) (der: NodoCorreo)

text \<open>
  The global tables and the static counter of \<^verbatim>\<open>crearCorreo\<close>:
  \<^verbatim>\<open>
  unordered_map<string, vector<Correo>> correosPorRemitente;
  unordered_map<int, unordered_map<string, int>> matrizDispersa;
  unordered_map<int, Correo> correosPorID;
  static int nextID = 1;
  \<close>
\<close>

type_synonym matriz = "(entero, (string, entero) mapping) mapping"

record estado =
  nextID :: entero
  correosPorRemitente :: "(string, Correo list) mapping"
  matrizDispersa :: matriz
  correosPorID :: "(entero, Correo) mapping"

definition estado_inicial :: estado where
  "estado_inicial =
     \<lparr>nextID = 1, correosPorRemitente = Mapping.empty, matrizDispersa = Mapping.empty,
      correosPorID = Mapping.empty\<rparr>"

section \<open>The tree ordered by date (class ArbolCorreos)\<close>

text \<open>
  \<^verbatim>\<open>
  NodoCorreo* insertar(NodoCorreo* nodo, Correo c) {
      if (!nodo) return new NodoCorreo(c);
      if (c.fecha < nodo->data.fecha) nodo->izq = insertar(nodo->izq, c);
      else                            nodo->der = insertar(nodo->der, c);
      return nodo;
  }
  \<close>
  \<^verbatim>\<open>operator<\<close> of \<^verbatim>\<open>std::string\<close> is the lexicographic order of the bytes taken as
  unsigned values: the order of \<open>char list\<close> given by \<open>Char_ord\<close> and \<open>List_Lexorder\<close>.
\<close>

fun insertar :: "NodoCorreo \<Rightarrow> Correo \<Rightarrow> NodoCorreo" where
  "insertar Nulo c = Nodo c Nulo Nulo"
| "insertar (Nodo d l r) c =
     (if fecha c < fecha d then Nodo d (insertar l c) r else Nodo d l (insertar r c))"

text \<open>
  \<^verbatim>\<open>
  void inOrden(NodoCorreo* nodo, vector<Correo>& lista) {
      if (!nodo) return;
      inOrden(nodo->izq, lista);
      lista.push_back(nodo->data);
      inOrden(nodo->der, lista);
  }
  vector<Correo> obtenerOrdenados() { vector<Correo> lista; inOrden(raiz, lista); return lista; }
  \<close>
  The vector passed by reference is threaded through the calls.
\<close>

fun inOrden :: "NodoCorreo \<Rightarrow> Correo list \<Rightarrow> Correo list" where
  "inOrden Nulo lista = lista"
| "inOrden (Nodo d l r) lista = inOrden r (inOrden l lista @ [d])"

definition obtenerOrdenados :: "NodoCorreo \<Rightarrow> Correo list" where
  "obtenerOrdenados raiz = inOrden raiz []"

section \<open>crearCorreo: the tables and the sparse matrix\<close>

text \<open>
  \<^verbatim>\<open>tolower\<close> and \<^verbatim>\<open>isalnum\<close> in the "C" locale, the one in force since the program never
  calls \<^verbatim>\<open>setlocale\<close>: only the ASCII letters and digits are alphanumeric, only
  \<^verbatim>\<open>A\<close>..\<^verbatim>\<open>Z\<close> change under \<^verbatim>\<open>tolower\<close>, and every other byte is left as it is (also
  the bytes from 0x80 on, which reach \<^verbatim>\<open>tolower\<close> as negative values of a signed
  \<^verbatim>\<open>char\<close> and come back unchanged). The characters are read as unsigned bytes.
\<close>

definition isalnum :: "char \<Rightarrow> bool" where
  "isalnum ch =
     (let n = (of_char ch :: nat)
      in (48 \<le> n \<and> n \<le> 57) \<or> (65 \<le> n \<and> n \<le> 90) \<or> (97 \<le> n \<and> n \<le> 122))"

definition tolower :: "char \<Rightarrow> char" where
  "tolower ch =
     (let n = (of_char ch :: nat) in if 65 \<le> n \<and> n \<le> 90 then char_of (n + 32) else ch)"

text \<open>\<^verbatim>\<open>auto aMinusculas = [](string s) { for (char &ch : s) ch = tolower(ch); return s; };\<close>\<close>

definition aMinusculas :: "string \<Rightarrow> string" where
  "aMinusculas s = map tolower s"

text \<open>
  \<^verbatim>\<open>matrizDispersa[id][palabra] = 1;\<close>
  \<^verbatim>\<open>operator[]\<close> creates the row of \<^verbatim>\<open>id\<close>, empty, when it is missing.
\<close>

definition marcar :: "entero \<Rightarrow> string \<Rightarrow> matriz \<Rightarrow> matriz" where
  "marcar i palabra m =
     Mapping.update i (Mapping.update palabra 1 (Mapping.lookup_default Mapping.empty m i)) m"

text \<open>
  The loop over the characters of \<^verbatim>\<open>texto\<close>, with the local \<^verbatim>\<open>palabra\<close> and the global
  matrix as its state:
  \<^verbatim>\<open>
  for (char ch : texto) {
      if (isalnum((unsigned char)ch)) palabra += ch;
      else { if (!palabra.empty()) { matrizDispersa[c.id][palabra] = 1; palabra.clear(); } }
  }
  \<close>
\<close>

fun construirMatriz :: "entero \<Rightarrow> string \<Rightarrow> string \<Rightarrow> matriz \<Rightarrow> string \<times> matriz" where
  "construirMatriz i [] palabra m = (palabra, m)"
| "construirMatriz i (ch # texto) palabra m =
     (if isalnum ch then construirMatriz i texto (palabra @ [ch]) m
      else if palabra \<noteq> [] then construirMatriz i texto [] (marcar i palabra m)
      else construirMatriz i texto palabra m)"

text \<open>
  \<^verbatim>\<open>
  Correo crearCorreo(string rem, string asu, string cue, string fecha) {
      static int nextID = 1;
      Correo c = {nextID++, rem, asu, cue, fecha};
      correosPorRemitente[c.remitente].push_back(c);
      correosPorID[c.id] = c;
      string texto = aMinusculas(asu + " " + cue);
      string palabra;
      for (char ch : texto) { ... }
      if (!palabra.empty()) matrizDispersa[c.id][palabra] = 1;
      return c;
  }
  \<close>
  There is no check of the arguments and no failing path: the function returns the
  record and the new state.
\<close>

definition crearCorreo :: "string \<Rightarrow> string \<Rightarrow> string \<Rightarrow> string \<Rightarrow> estado \<Rightarrow> Correo \<times> estado" where
  "crearCorreo rem asu cue fec e =
     (let c = \<lparr>idCorreo = nextID e, remitente = rem, asunto = asu, cuerpo = cue, fecha = fec\<rparr>;
          porRem = Mapping.update (remitente c)
                     (Mapping.lookup_default [] (correosPorRemitente e) (remitente c) @ [c])
                     (correosPorRemitente e);
          porID = Mapping.update (idCorreo c) c (correosPorID e);
          texto = aMinusculas (asu @ '' '' @ cue);
          (palabra, m) = construirMatriz (idCorreo c) texto [] (matrizDispersa e);
          m' = (if palabra \<noteq> [] then marcar (idCorreo c) palabra m else m)
      in (c, \<lparr>nextID = nextID e + 1, correosPorRemitente = porRem, matrizDispersa = m',
              correosPorID = porID\<rparr>))"

section \<open>The loader and the sequence of creations\<close>

text \<open>
  A record enters the system by \<^verbatim>\<open>arbol.insertar(crearCorreo(rem, asu, cue, fec))\<close>, in
  \<^verbatim>\<open>main\<close> and in the loader alike: the record returned by \<^verbatim>\<open>crearCorreo\<close> goes into
  the tree. The state of the program is the tree of \<^verbatim>\<open>main\<close> with the globals.
\<close>

type_synonym entrada = "string \<times> string \<times> string \<times> string"
type_synonym programa = "NodoCorreo \<times> estado"

definition programa_inicial :: programa where
  "programa_inicial = (Nulo, estado_inicial)"

fun ingresar :: "programa \<Rightarrow> entrada \<Rightarrow> programa" where
  "ingresar (arbol, e) (rem, asu, cue, fec) =
     (let (c, e') = crearCorreo rem asu cue fec e in (insertar arbol c, e'))"

text \<open>
  \<open>ejecutar xs\<close> is the state after the creations \<open>xs\<close>, in this order, from the state in
  which the program starts; \<open>creados p xs\<close> lists the records that \<^verbatim>\<open>crearCorreo\<close>
  returned, in the order of the calls.
\<close>

definition ejecutar :: "entrada list \<Rightarrow> programa" where
  "ejecutar xs = foldl ingresar programa_inicial xs"

fun creados :: "programa \<Rightarrow> entrada list \<Rightarrow> Correo list" where
  "creados p [] = []"
| "creados (arbol, e) ((rem, asu, cue, fec) # xs) =
     fst (crearCorreo rem asu cue fec e) # creados (ingresar (arbol, e) (rem, asu, cue, fec)) xs"

text \<open>
  \<^verbatim>\<open>getline(ss, campo, ';')\<close> on what is left of a stream: the characters before the first
  delimiter, and the rest after it (the delimiter is consumed). At the end of the
  stream the call extracts nothing and the field, a fresh empty string, stays empty.
\<close>

fun getline :: "char \<Rightarrow> string \<Rightarrow> string \<times> string" where
  "getline d [] = ([], [])"
| "getline d (ch # resto) =
     (if ch = d then ([], resto) else (let (campo, r) = getline d resto in (ch # campo, r)))"

text \<open>
  The body of the loop of \<^verbatim>\<open>cargarCorreosDesdeArchivo\<close>, for one line:
  \<^verbatim>\<open>
  stringstream ss(linea);
  string rem, asu, cue, fec;
  getline(ss, rem, ';'); getline(ss, asu, ';'); getline(ss, cue, ';'); getline(ss, fec, ';');
  if (rem.empty()) continue;
  Correo c = crearCorreo(rem, asu, cue, fec);
  arbol.insertar(c);
  \<close>
\<close>

definition campos :: "string \<Rightarrow> entrada" where
  "campos linea =
     (let (rem, r1) = getline CHR '';'' linea;
          (asu, r2) = getline CHR '';'' r1;
          (cue, r3) = getline CHR '';'' r2;
          (fec, r4) = getline CHR '';'' r3
      in (rem, asu, cue, fec))"

definition cargarLinea :: "programa \<Rightarrow> string \<Rightarrow> programa" where
  "cargarLinea p linea =
     (let (rem, asu, cue, fec) = campos linea
      in if rem = [] then p else ingresar p (rem, asu, cue, fec))"

text \<open>
  \<^verbatim>\<open>while (getline(file, linea))\<close>: the lines of the file, each without its newline; the
  loop stops at the call that finds nothing left.
\<close>

function leerLineas :: "string \<Rightarrow> string list" where
  "leerLineas contenido =
     (if contenido = [] then []
      else (let (linea, resto) = getline CHR 0x0A contenido in linea # leerLineas resto))"
  by pat_completeness auto
termination
proof (relation "measure length")
  show "wf (measure length)" by simp
next
  fix contenido :: string and x linea resto
  assume ne: "contenido \<noteq> []" and x: "x = getline CHR 0x0A contenido" and lr: "(linea, resto) = x"
  have menor: "s \<noteq> [] \<Longrightarrow> length (snd (getline d s)) < length s" for d and s :: string
  proof (induction s)
    case Nil
    then show ?case by simp
  next
    case (Cons ch r)
    then show ?case by (cases r) (auto split: prod.splits)
  qed
  from menor [OF ne, of "CHR 0x0A"] x lr show "(resto, contenido) \<in> measure length"
    by (metis in_measure snd_conv)
qed

declare leerLineas.simps [simp del]

text \<open>
  \<^verbatim>\<open>void cargarCorreosDesdeArchivo(string nombreArchivo, ArbolCorreos &arbol)\<close>, given the
  contents of the file, \<open>None\<close> when it cannot be opened (the function then returns at
  once).
\<close>

definition cargarCorreosDesdeArchivo :: "string option \<Rightarrow> programa \<Rightarrow> programa" where
  "cargarCorreosDesdeArchivo archivo p =
     (case archivo of None \<Rightarrow> p | Some contenido \<Rightarrow> foldl cargarLinea p (leerLineas contenido))"

section \<open>The queries\<close>

text \<open>
  \<^verbatim>\<open>if (id != 0 && correosPorID.count(id)) verCorreo(correosPorID[id]);\<close>
  the lookup of a record by its identifier, for the three menus.
\<close>

definition obtenerPorID :: "estado \<Rightarrow> entero \<Rightarrow> Correo option" where
  "obtenerPorID e i = (if i \<noteq> 0 then Mapping.lookup (correosPorID e) i else None)"

text \<open>
  \<^verbatim>\<open>buscarRemitenteANSI\<close>: the list shown for the sender that was typed,
  \<^verbatim>\<open>
  if (!correosPorRemitente.count(rem)) { ... return; }
  auto& lista = correosPorRemitente[rem];
  \<close>
  with the empty list when nothing is found.
\<close>

definition buscarRemitenteANSI :: "estado \<Rightarrow> string \<Rightarrow> Correo list" where
  "buscarRemitenteANSI e rem =
     (case Mapping.lookup (correosPorRemitente e) rem of None \<Rightarrow> [] | Some lista \<Rightarrow> lista)"

text \<open>
  \<^verbatim>\<open>buscarPalabraANSI\<close>:
  \<^verbatim>\<open>
  for (char &c : palabra) c = tolower(c);
  vector<int> resultados;
  for (auto &fila : matrizDispersa)
      if (fila.second.count(palabra)) resultados.push_back(fila.first);
  \<close>
  An \<^verbatim>\<open>unordered_map\<close> is visited in no specified order, and each row once: the
  result is the set of the identifiers found.
\<close>

definition resultados :: "estado \<Rightarrow> string \<Rightarrow> entero set" where
  "resultados e palabra =
     Set.filter (\<lambda>i. aMinusculas palabra \<in> Mapping.keys (Mapping.lookup_default Mapping.empty (matrizDispersa e) i))
       (Mapping.keys (matrizDispersa e))"

text \<open>
  \<^verbatim>\<open>for (int id : resultados) { Correo &c = correosPorID[id]; ... }\<close>: the records shown.
  \<^verbatim>\<open>operator[]\<close> would give a value-initialised record for a missing identifier; by
  \<open>matriz_en_porID\<close> below no identifier of the matrix is missing.
\<close>

definition Correo_vacio :: Correo where
  "Correo_vacio = \<lparr>idCorreo = 0, remitente = [], asunto = [], cuerpo = [], fecha = []\<rparr>"

definition buscarPalabraANSI :: "estado \<Rightarrow> string \<Rightarrow> Correo set" where
  "buscarPalabraANSI e palabra =
     (\<lambda>i. Mapping.lookup_default Correo_vacio (correosPorID e) i) ` resultados e palabra"

text \<open>
  \<^verbatim>\<open>main\<close> up to its menu loop: the three predefined records, then the file
  \<^verbatim>\<open>correos.txt\<close>. The source is UTF-8, so the \<^verbatim>\<open>n\<close> with tilde of the first body is the
  two bytes C3 B1.
\<close>

definition principal :: "string option \<Rightarrow> programa" where
  "principal archivo =
     cargarCorreosDesdeArchivo archivo
       (ingresar
         (ingresar
           (ingresar (Nulo, estado_inicial)
             (''juan@correo.com'', ''Reunion de equipo'',
              ''Reunion urgente ma'' @ [CHR 0xC3, CHR 0xB1] @ ''ana'', ''2025-11-10''))
           (''ana@correo.com'', ''Entrega de tarea'', ''La tarea esta lista'', ''2025-11-11''))
         (''luis@correo.com'', ''Proyecto nuevo'', ''Debemos entregar el reporte'', ''2025-11-09''))"

section \<open>Notions used to state the properties\<close>

text \<open>
  The words that the loop of \<^verbatim>\<open>crearCorreo\<close> and the test after it mark in the matrix,
  in the order in which they are marked: the same three branches as \<open>construirMatriz\<close>,
  without the matrix.
\<close>

fun palabras :: "string \<Rightarrow> string \<Rightarrow> string list" where
  "palabras [] palabra = (if palabra \<noteq> [] then [palabra] else [])"
| "palabras (ch # texto) palabra =
     (if isalnum ch then palabras texto (palabra @ [ch])
      else if palabra \<noteq> [] then palabra # palabras texto []
      else palabras texto palabra)"

definition terminos :: "Correo \<Rightarrow> string set" where
  "terminos c = set (palabras (aMinusculas (asunto c @ '' '' @ cuerpo c)) [])"

text \<open>The words of the row of an identifier; none when the matrix has no such row.\<close>

definition fila :: "matriz \<Rightarrow> entero \<Rightarrow> string set" where
  "fila m i = Mapping.keys (Mapping.lookup_default Mapping.empty m i)"

text \<open>
  A token in the words of the specification: \<open>t\<close> is a maximal alphanumeric run of \<open>s\<close>
  when it is not empty, all its characters are alphanumeric, and it stands in \<open>s\<close>
  between two limits, a limit being an end of \<open>s\<close> or a character that is not
  alphanumeric. \<open>corrida\<close> says so with the two parts of \<open>s\<close> around \<open>t\<close>;
  \<open>corrida_maximal\<close> is the same test over the positions of \<open>s\<close>, which can be run
  (\<open>corrida_maximal_iff\<close>).
\<close>

definition corrida :: "string \<Rightarrow> string \<Rightarrow> bool" where
  "corrida t s \<longleftrightarrow>
     (\<exists>pre post. s = pre @ t @ post \<and> (pre = [] \<or> \<not> isalnum (last pre)) \<and>
        (post = [] \<or> \<not> isalnum (hd post)))"

definition limite :: "string \<Rightarrow> bool" where
  "limite s = (case s of [] \<Rightarrow> True | ch # _ \<Rightarrow> \<not> isalnum ch)"

definition corrida_maximal :: "string \<Rightarrow> string \<Rightarrow> bool" where
  "corrida_maximal t s =
     (t \<noteq> [] \<and> list_all isalnum t \<and>
      list_ex (\<lambda>k. take (length t) (drop k s) = t \<and> limite (rev (take k s)) \<and>
                  limite (drop (k + length t) s))
        [0..<Suc (length s)])"

text \<open>
  Where a record goes in a list sorted by date when equal dates keep the order of
  arrival: after the records whose date is not greater, before the others.
\<close>

definition colocar :: "Correo \<Rightarrow> Correo list \<Rightarrow> Correo list" where
  "colocar c cs = filter (\<lambda>x. fecha x \<le> fecha c) cs @ c # filter (\<lambda>x. fecha c < fecha x) cs"

text \<open>
  The order of the tree as \<^verbatim>\<open>insertar\<close> keeps it: the dates on the left of a node are
  smaller than its date, those on the right are greater or equal. \<open>nodos\<close> counts the
  nodes.
\<close>

fun ordenado :: "NodoCorreo \<Rightarrow> bool" where
  "ordenado Nulo = True"
| "ordenado (Nodo d l r) =
     (list_all (\<lambda>x. fecha x < fecha d) (obtenerOrdenados l) \<and>
      list_all (\<lambda>x. fecha d \<le> fecha x) (obtenerOrdenados r) \<and> ordenado l \<and> ordenado r)"

fun nodos :: "NodoCorreo \<Rightarrow> nat" where
  "nodos Nulo = 0"
| "nodos (Nodo d l r) = Suc (nodos l + nodos r)"

text \<open>
  The records that a sequence of inputs describes: the \<open>k\<close>-th input with its four
  strings and the identifier \<open>k\<close>, as a 32-bit number.
\<close>

fun numerar :: "nat \<Rightarrow> entrada list \<Rightarrow> Correo list" where
  "numerar k [] = []"
| "numerar k ((rem, asu, cue, fec) # xs) =
     \<lparr>idCorreo = of_nat k, remitente = rem, asunto = asu, cuerpo = cue, fecha = fec\<rparr> #
     numerar (Suc k) xs"

definition registros :: "entrada list \<Rightarrow> Correo list" where
  "registros xs = numerar 1 xs"

text \<open>
  Normalisation and tokens in the words of the specification, written without the
  functions of the program: the alphanumeric characters are the ASCII digits and
  letters, lower-casing replaces each ASCII capital by its small letter and leaves
  every other character, and a token of a text is a maximal run of alphanumeric
  characters (\<open>es_token_iff\<close> says it with the parts of the text around the run).
\<close>

definition es_alfanumerico :: "char \<Rightarrow> bool" where
  "es_alfanumerico ch =
     (ch \<in> set ''0123456789ABCDEFGHIJKLMNOPQRSTUVWXYZabcdefghijklmnopqrstuvwxyz'')"

definition en_minuscula :: "char \<Rightarrow> char" where
  "en_minuscula ch =
     (case map_of (zip ''ABCDEFGHIJKLMNOPQRSTUVWXYZ'' ''abcdefghijklmnopqrstuvwxyz'') ch of
        None \<Rightarrow> ch | Some m \<Rightarrow> m)"

definition normalizar :: "string \<Rightarrow> string" where
  "normalizar s = map en_minuscula s"

definition borde :: "string \<Rightarrow> bool" where
  "borde s = (case s of [] \<Rightarrow> True | ch # _ \<Rightarrow> \<not> es_alfanumerico ch)"

definition es_token :: "string \<Rightarrow> string \<Rightarrow> bool" where
  "es_token t s =
     (t \<noteq> [] \<and> list_all es_alfanumerico t \<and>
      list_ex (\<lambda>k. take (length t) (drop k s) = t \<and> borde (rev (take k s)) \<and>
                  borde (drop (k + length t) s))
        [0..<Suc (length s)])"

text \<open>
  Runs long enough for the counter to wrap. After \<open>2^32 - 1\<close> creations the counter is
  0; in \<open>reutilizado\<close> the creation number \<open>2^32 + 1\<close> gets the identifier 1 again.
\<close>

definition entrada_b :: entrada where
  "entrada_b = (''b@x.com'', [], [], ''2025-01-02'')"

definition reutilizado :: "entrada list" where
  "reutilizado =
     (''a@x.com'', ''old'', [], ''2025-01-01'') # replicate 4294967295 entrada_b @
     [(''c@x.com'', ''new'', [], ''2025-01-03'')]"

text \<open>
  The scenario of the specification: two creations from the empty state, and the two
  records they are expected to give.
\<close>

definition escenario :: "entrada list" where
  "escenario = [(''a@x.com'', ''Hi'', ''Hi there'', ''2025-01-02''),
                (''b@x.com'', ''Yo'', ''Hi all'', ''2025-01-01'')]"

definition correo_a :: Correo where
  "correo_a = \<lparr>idCorreo = 1, remitente = ''a@x.com'', asunto = ''Hi'', cuerpo = ''Hi there'',
                fecha = ''2025-01-02''\<rparr>"

definition correo_b :: Correo where
  "correo_b = \<lparr>idCorreo = 2, remitente = ''b@x.com'', asunto = ''Yo'', cuerpo = ''Hi all'',
                fecha = ''2025-01-01''\<rparr>"

section \<open>The tree: traversal and insertion\<close>

lemma inOrden_acc: "inOrden t lista = lista @ inOrden t []"
proof (induction t arbitrary: lista)
  case Nulo
  show ?case by simp
next
  case (Nodo d l r)
  have "inOrden (Nodo d l r) lista = inOrden r (inOrden l lista @ [d])" by simp
  also have "\<dots> = (inOrden l lista @ [d]) @ inOrden r []" by (rule Nodo.IH(2))
  also have "inOrden l lista = lista @ inOrden l []" by (rule Nodo.IH(1))
  finally have izq: "inOrden (Nodo d l r) lista = lista @ inOrden l [] @ d # inOrden r []" by simp
  have "inOrden (Nodo d l r) [] = inOrden r (inOrden l [] @ [d])" by simp
  also have "\<dots> = (inOrden l [] @ [d]) @ inOrden r []" by (rule Nodo.IH(2))
  finally show ?case using izq by simp
qed

lemma obtenerOrdenados_Nulo: "obtenerOrdenados Nulo = []"
  by (simp add: obtenerOrdenados_def)

lemma obtenerOrdenados_Nodo:
  "obtenerOrdenados (Nodo d l r) = obtenerOrdenados l @ d # obtenerOrdenados r"
proof -
  have "inOrden r (inOrden l [] @ [d]) = (inOrden l [] @ [d]) @ inOrden r []"
    by (rule inOrden_acc)
  then show ?thesis by (simp add: obtenerOrdenados_def)
qed

lemma filter_todos: "(\<And>x. x \<in> set xs \<Longrightarrow> P x) \<Longrightarrow> filter P xs = xs"
  by (induction xs) auto

lemma filter_ninguno: "(\<And>x. x \<in> set xs \<Longrightarrow> \<not> P x) \<Longrightarrow> filter P xs = []"
  by (induction xs) auto

lemma obtenerOrdenados_insertar:
  "sorted (map fecha (obtenerOrdenados t)) \<Longrightarrow>
   obtenerOrdenados (insertar t c) = colocar c (obtenerOrdenados t)"
proof (induction t)
  case Nulo
  show ?case by (simp add: obtenerOrdenados_Nulo obtenerOrdenados_Nodo colocar_def)
next
  case (Nodo d l r)
  let ?L = "obtenerOrdenados l" and ?R = "obtenerOrdenados r"
  from Nodo.prems have ord: "sorted (map fecha (?L @ d # ?R))"
    by (simp add: obtenerOrdenados_Nodo)
  then have sl: "sorted (map fecha ?L)" and sr: "sorted (map fecha ?R)"
    and ld: "\<And>x. x \<in> set ?L \<Longrightarrow> fecha x \<le> fecha d"
    and dr: "\<And>x. x \<in> set ?R \<Longrightarrow> fecha d \<le> fecha x"
    by (auto simp: sorted_append)
  show ?case
  proof (cases "fecha c < fecha d")
    case True
    have r1: "filter (\<lambda>x. fecha x \<le> fecha c) ?R = []"
      using dr True by (intro filter_ninguno) fastforce
    have r2: "filter (\<lambda>x. fecha c < fecha x) ?R = ?R"
      using dr True by (intro filter_todos) fastforce
    from True have "obtenerOrdenados (insertar (Nodo d l r) c) = colocar c ?L @ d # ?R"
      by (simp add: obtenerOrdenados_Nodo Nodo.IH(1) [OF sl])
    also have "\<dots> = colocar c (?L @ d # ?R)"
      using True r1 r2 by (simp add: colocar_def)
    finally show ?thesis by (simp add: obtenerOrdenados_Nodo)
  next
    case False
    then have dc: "fecha d \<le> fecha c" by simp
    have l1: "filter (\<lambda>x. fecha x \<le> fecha c) ?L = ?L"
      using ld dc by (intro filter_todos) fastforce
    have l2: "filter (\<lambda>x. fecha c < fecha x) ?L = []"
      using ld dc by (intro filter_ninguno) fastforce
    from False have "obtenerOrdenados (insertar (Nodo d l r) c) = ?L @ d # colocar c ?R"
      by (simp add: obtenerOrdenados_Nodo Nodo.IH(2) [OF sr])
    also have "\<dots> = colocar c (?L @ d # ?R)"
      using False dc l1 l2 by (simp add: colocar_def)
    finally show ?thesis by (simp add: obtenerOrdenados_Nodo)
  qed
qed

lemma sorted_colocar: "sorted (map fecha cs) \<Longrightarrow> sorted (map fecha (colocar c cs))"
  by (auto simp: colocar_def sorted_append sorted_filter intro: order_trans less_imp_le)

lemma filter_colocar:
  "filter (\<lambda>x. fecha x = k) (colocar c cs) = filter (\<lambda>x. fecha x = k) (cs @ [c])"
proof -
  have a: "filter (\<lambda>x. fecha x = k) (filter (\<lambda>x. fecha x \<le> fecha c) cs) =
        (if k \<le> fecha c then filter (\<lambda>x. fecha x = k) cs else [])"
    by (induction cs) auto
  have b: "filter (\<lambda>x. fecha x = k) (filter (\<lambda>x. fecha c < fecha x) cs) =
        (if fecha c < k then filter (\<lambda>x. fecha x = k) cs else [])"
    by (induction cs) auto
  show ?thesis unfolding colocar_def filter_append filter.simps a b by auto
qed

lemma mset_colocar: "mset (colocar c cs) = mset cs + {#c#}"
  by (induction cs) (auto simp: colocar_def)

section \<open>crearCorreo and the runs of the program\<close>

lemma fila_marcar: "fila (marcar i w m) j = (if j = i then insert w (fila m i) else fila m j)"
  by (simp add: fila_def marcar_def Mapping.lookup_default_def)

lemma fila_foldl_marcar:
  "fila (foldl (\<lambda>m w. marcar i w m) m ws) j = (if j = i then fila m i \<union> set ws else fila m j)"
  by (induction ws arbitrary: m) (auto simp: fila_marcar)

lemma keys_marcar: "Mapping.keys (marcar i w m) = insert i (Mapping.keys m)"
  by (simp add: marcar_def)

lemma keys_foldl_marcar:
  "Mapping.keys (foldl (\<lambda>m w. marcar i w m) m ws) =
     (if ws = [] then Mapping.keys m else insert i (Mapping.keys m))"
  by (induction ws arbitrary: m) (auto simp: keys_marcar)

lemma construirMatriz_palabras:
  "(case construirMatriz i texto palabra m of
      (p, m') \<Rightarrow> if p \<noteq> [] then marcar i p m' else m') =
   foldl (\<lambda>m w. marcar i w m) m (palabras texto palabra)"
  by (induction texto arbitrary: palabra m) auto

lemma crearCorreo_fst:
  "fst (crearCorreo rem asu cue fec e) =
     \<lparr>idCorreo = nextID e, remitente = rem, asunto = asu, cuerpo = cue, fecha = fec\<rparr>"
  by (simp add: crearCorreo_def Let_def split: prod.splits)

lemma crearCorreo_nextID: "nextID (snd (crearCorreo rem asu cue fec e)) = nextID e + 1"
  by (simp add: crearCorreo_def Let_def split: prod.splits)

lemma crearCorreo_porID:
  "correosPorID (snd (crearCorreo rem asu cue fec e)) =
     Mapping.update (nextID e) (fst (crearCorreo rem asu cue fec e)) (correosPorID e)"
  by (simp add: crearCorreo_def Let_def split: prod.splits)

lemma crearCorreo_porRemitente:
  "correosPorRemitente (snd (crearCorreo rem asu cue fec e)) =
     Mapping.update rem
       (Mapping.lookup_default [] (correosPorRemitente e) rem @ [fst (crearCorreo rem asu cue fec e)])
       (correosPorRemitente e)"
  by (simp add: crearCorreo_def Let_def split: prod.splits)

lemma crearCorreo_matriz:
  "matrizDispersa (snd (crearCorreo rem asu cue fec e)) =
     foldl (\<lambda>m w. marcar (nextID e) w m) (matrizDispersa e)
       (palabras (aMinusculas (asu @ '' '' @ cue)) [])"
proof -
  have "matrizDispersa (snd (crearCorreo rem asu cue fec e)) =
        (case construirMatriz (nextID e) (aMinusculas (asu @ '' '' @ cue)) [] (matrizDispersa e) of
           (p, m') \<Rightarrow> if p \<noteq> [] then marcar (nextID e) p m' else m')"
    by (simp add: crearCorreo_def Let_def split: prod.splits)
  then show ?thesis by (simp only: construirMatriz_palabras)
qed

lemma ejecutar_Nil: "ejecutar [] = (Nulo, estado_inicial)"
  by (simp add: ejecutar_def programa_inicial_def)

lemma ingresar_eq:
  "ingresar p (rem, asu, cue, fec) =
     (insertar (fst p) (fst (crearCorreo rem asu cue fec (snd p))),
      snd (crearCorreo rem asu cue fec (snd p)))"
  by (cases p) (simp split: prod.splits)

lemma ejecutar_snoc: "ejecutar (xs @ [x]) = ingresar (ejecutar xs) x"
  by (simp add: ejecutar_def)

lemma creados_append: "creados p (xs @ ys) = creados p xs @ creados (foldl ingresar p xs) ys"
proof (induction xs arbitrary: p)
  case Nil
  show ?case by simp
next
  case (Cons x xs)
  obtain a e where p: "p = (a, e)" by (cases p)
  obtain rem asu cue fec where x: "x = (rem, asu, cue, fec)" by (cases x)
  show ?case unfolding p x using Cons.IH by simp
qed

lemma creados_uno:
  "creados p [(rem, asu, cue, fec)] = [fst (crearCorreo rem asu cue fec (snd p))]"
  by (cases p) simp

lemma creados_snoc:
  "creados programa_inicial (xs @ [(rem, asu, cue, fec)]) =
     creados programa_inicial xs @ [fst (crearCorreo rem asu cue fec (snd (ejecutar xs)))]"
  by (simp only: creados_append creados_uno ejecutar_def)

lemma nextID_ejecutar: "nextID (snd (ejecutar xs)) = of_nat (length xs) + 1"
proof (induction xs rule: rev_induct)
  case Nil
  show ?case by (simp add: ejecutar_Nil estado_inicial_def)
next
  case (snoc x xs)
  obtain rem asu cue fec where x: "x = (rem, asu, cue, fec)" by (cases x)
  show ?case using snoc.IH by (simp add: x ejecutar_snoc ingresar_eq crearCorreo_nextID)
qed

lemma creados_numerar: "nextID (snd p) = of_nat k \<Longrightarrow> creados p xs = numerar k xs"
proof (induction xs arbitrary: p k)
  case Nil
  show ?case by simp
next
  case (Cons x xs)
  obtain a e where p: "p = (a, e)" by (cases p)
  obtain rem asu cue fec where x: "x = (rem, asu, cue, fec)" by (cases x)
  from Cons.prems have k: "nextID e = of_nat k" by (simp add: p)
  have "nextID (snd (ingresar (a, e) (rem, asu, cue, fec))) = of_nat (Suc k)"
    by (simp add: ingresar_eq crearCorreo_nextID k)
  from Cons.IH [OF this] show ?case by (simp add: p x crearCorreo_fst k)
qed

lemma creados_registros: "creados programa_inicial xs = registros xs"
  unfolding registros_def
  by (rule creados_numerar) (simp add: programa_inicial_def estado_inicial_def)

lemma length_numerar: "length (numerar k xs) = length xs"
  by (induction xs arbitrary: k) auto

lemma idCorreo_numerar: "map idCorreo (numerar k xs) = map of_nat [k..<k + length xs]"
proof (induction xs arbitrary: k)
  case Nil
  show ?case by simp
next
  case (Cons x xs)
  obtain rem asu cue fec where x: "x = (rem, asu, cue, fec)" by (cases x)
  have "[k..<k + length (x # xs)] = k # [Suc k..<Suc k + length xs]"
    by (simp add: upt_rec)
  then show ?case by (simp only: x numerar.simps list.map Cons.IH Correo.simps)
qed

lemma campos_numerar:
  "c \<in> set (numerar k xs) \<Longrightarrow> (remitente c, asunto c, cuerpo c, fecha c) \<in> set xs"
  by (induction k xs rule: numerar.induct) auto

lemma idCorreo_creados:
  "map idCorreo (creados programa_inicial xs) = map of_nat [1..<Suc (length xs)]"
  by (simp add: creados_registros registros_def idCorreo_numerar)

lemma length_creados: "length (creados programa_inicial xs) = length xs"
  by (simp add: creados_registros registros_def length_numerar)

lemma id_enesimo:
  assumes "i < length xs"
  shows "idCorreo (creados programa_inicial xs ! i) = of_nat (Suc i)"
proof -
  from assms have "i < length (creados programa_inicial xs)" by (simp add: length_creados)
  then have "idCorreo (creados programa_inicial xs ! i) =
             map idCorreo (creados programa_inicial xs) ! i" by simp
  also have "\<dots> = map of_nat [1..<Suc (length xs)] ! i" by (simp only: idCorreo_creados)
  also have "\<dots> = of_nat (Suc i)" using assms by (simp del: upt_Suc)
  finally show ?thesis .
qed

text \<open>Below \<open>2^32\<close> two numbers with the same 32 bits are equal.\<close>

lemma entero_iny:
  "i < 2 ^ 32 \<Longrightarrow> j < 2 ^ 32 \<Longrightarrow> ((of_nat i :: entero) = of_nat j) = (i = j)"
  by (simp add: word_of_nat_eq_iff take_bit_nat_eq_self)

lemma entero_no_cero: "0 < i \<Longrightarrow> i < 2 ^ 32 \<Longrightarrow> (of_nat i :: entero) \<noteq> 0"
  using entero_iny [of i 0] by simp

lemma entero_sint: "i < 2 ^ 31 \<Longrightarrow> sint (of_nat i :: entero) = int i"
proof -
  assume "i < 2 ^ 31"
  then have "int i < 2 ^ 31" by (metis of_nat_less_iff of_nat_numeral of_nat_power)
  then have "signed_take_bit 31 (int i) = int i"
    by (simp add: signed_take_bit_int_eq_self)
  then show ?thesis by (simp add: signed_of_nat)
qed

lemma idCorreo_rango:
  assumes "c \<in> set (creados programa_inicial xs)"
  shows "\<exists>k. 0 < k \<and> k \<le> length xs \<and> idCorreo c = of_nat k"
proof -
  from assms have "idCorreo c \<in> set (map idCorreo (creados programa_inicial xs))" by simp
  then have "idCorreo c \<in> of_nat ` set [1..<Suc (length xs)]"
    by (simp only: idCorreo_creados set_map)
  then obtain k where "k \<in> set [1..<Suc (length xs)]" and "idCorreo c = of_nat k"
    by (rule imageE)
  then have "0 < k \<and> k \<le> length xs \<and> idCorreo c = of_nat k"
    by (simp only: set_upt atLeastLessThan_iff) simp
  then show ?thesis by (rule exI)
qed

lemma distinct_creados:
  assumes "length xs < 2 ^ 32"
  shows "distinct (map idCorreo (creados programa_inicial xs))"
proof -
  have "inj_on (of_nat :: nat \<Rightarrow> entero) (set [1..<Suc (length xs)])"
  proof (rule inj_onI)
    fix i j assume "i \<in> set [1..<Suc (length xs)]" "j \<in> set [1..<Suc (length xs)]"
      and eq: "(of_nat i :: entero) = of_nat j"
    with assms have "i < 2 ^ 32" "j < 2 ^ 32" by auto
    with eq show "i = j" by (simp add: entero_iny)
  qed
  then show ?thesis by (simp only: idCorreo_creados distinct_map distinct_upt)
qed

lemma keys_porID_ejecutar:
  "Mapping.keys (correosPorID (snd (ejecutar xs))) = of_nat ` {0<..length xs}"
proof (induction xs rule: rev_induct)
  case Nil
  show ?case by (simp add: ejecutar_Nil estado_inicial_def)
next
  case (snoc x xs)
  obtain rem asu cue fec where x: "x = (rem, asu, cue, fec)" by (cases x)
  have "{0<..Suc (length xs)} = insert (Suc (length xs)) {0<..length xs}" by auto
  then show ?case using snoc.IH
    by (simp add: x ejecutar_snoc ingresar_eq crearCorreo_porID nextID_ejecutar add.commute)
qed

lemma porID_creados:
  "length xs < 2 ^ 32 \<Longrightarrow> c \<in> set (creados programa_inicial xs) \<Longrightarrow>
   Mapping.lookup (correosPorID (snd (ejecutar xs))) (idCorreo c) = Some c"
proof (induction xs rule: rev_induct)
  case Nil
  then show ?case by simp
next
  case (snoc x xs)
  obtain rem asu cue fec where x: "x = (rem, asu, cue, fec)" by (cases x)
  let ?n = "fst (crearCorreo rem asu cue fec (snd (ejecutar xs)))"
  from snoc.prems(1) have cota: "length xs < 2 ^ 32" and sig: "Suc (length xs) < 2 ^ 32"
    by simp_all
  from snoc.prems(2) have "c \<in> set (creados programa_inicial xs) \<or> c = ?n"
    by (auto simp: x creados_snoc)
  then show ?case
  proof
    assume old: "c \<in> set (creados programa_inicial xs)"
    from idCorreo_rango [OF old] obtain k
      where k: "0 < k" "k \<le> length xs" "idCorreo c = of_nat k" by blast
    from k(2) cota have "k < 2 ^ 32" by simp
    with sig k(2) have "(of_nat k :: entero) \<noteq> of_nat (Suc (length xs))"
      using entero_iny [of k "Suc (length xs)"] by (simp del: of_nat_Suc)
    then have "idCorreo c \<noteq> of_nat (length xs) + 1" by (simp add: k(3) add.commute)
    then show ?thesis using snoc.IH [OF cota old]
      by (simp add: x ejecutar_snoc ingresar_eq crearCorreo_porID nextID_ejecutar)
  next
    assume "c = ?n"
    then show ?thesis
      by (simp add: x ejecutar_snoc ingresar_eq crearCorreo_porID nextID_ejecutar crearCorreo_fst)
  qed
qed

lemma buscarRemitente_ejecutar:
  "buscarRemitenteANSI (snd (ejecutar xs)) s =
     filter (\<lambda>c. remitente c = s) (creados programa_inicial xs)"
proof (induction xs rule: rev_induct)
  case Nil
  show ?case by (simp add: ejecutar_Nil estado_inicial_def buscarRemitenteANSI_def)
next
  case (snoc x xs)
  obtain rem asu cue fec where x: "x = (rem, asu, cue, fec)" by (cases x)
  show ?case using snoc.IH
    by (simp add: x ejecutar_snoc ingresar_eq creados_snoc buscarRemitenteANSI_def
        crearCorreo_porRemitente Mapping.lookup_update' Mapping.lookup_default_def crearCorreo_fst
        split: option.splits)
qed

lemma fila_ejecutar:
  "fila (matrizDispersa (snd (ejecutar xs))) i =
     (\<Union>c \<in> {c \<in> set (creados programa_inicial xs). idCorreo c = i}. terminos c)"
proof (induction xs rule: rev_induct)
  case Nil
  show ?case by (simp add: ejecutar_Nil estado_inicial_def fila_def Mapping.lookup_default_def)
next
  case (snoc x xs)
  obtain rem asu cue fec where x: "x = (rem, asu, cue, fec)" by (cases x)
  show ?case using snoc.IH
    by (auto simp: x ejecutar_snoc ingresar_eq creados_snoc crearCorreo_matriz fila_foldl_marcar
        crearCorreo_fst terminos_def)
qed

lemma resultados_fila: "resultados e w = {i. aMinusculas w \<in> fila (matrizDispersa e) i}"
  by (auto simp: resultados_def fila_def Mapping.lookup_default_def keys_dom_lookup
      split: option.splits)

lemma resultados_ejecutar:
  "resultados (snd (ejecutar xs)) w =
     idCorreo ` {c \<in> set (creados programa_inicial xs). aMinusculas w \<in> terminos c}"
  by (auto simp: resultados_fila fila_ejecutar)

lemma buscarPalabra_terminos:
  assumes "length xs < 2 ^ 32"
  shows "buscarPalabraANSI (snd (ejecutar xs)) w =
     {c \<in> set (creados programa_inicial xs). aMinusculas w \<in> terminos c}"
proof -
  have "Mapping.lookup_default Correo_vacio (correosPorID (snd (ejecutar xs))) (idCorreo c) = c"
    if "c \<in> set (creados programa_inicial xs)" for c
    using porID_creados [OF assms that] by (simp add: Mapping.lookup_default_def)
  then show ?thesis
    by (auto simp: buscarPalabraANSI_def resultados_ejecutar image_iff)
qed

lemma matriz_en_porID:
  "Mapping.keys (matrizDispersa (snd (ejecutar xs))) \<subseteq> Mapping.keys (correosPorID (snd (ejecutar xs)))"
proof (induction xs rule: rev_induct)
  case Nil
  show ?case by (simp add: ejecutar_Nil estado_inicial_def)
next
  case (snoc x xs)
  obtain rem asu cue fec where x: "x = (rem, asu, cue, fec)" by (cases x)
  show ?case using snoc.IH
    by (auto simp: x ejecutar_snoc ingresar_eq crearCorreo_matriz crearCorreo_porID
        keys_foldl_marcar split: if_splits)
qed

section \<open>The words of a text are its maximal alphanumeric runs\<close>

lemma limite_rev: "limite (rev pre) \<longleftrightarrow> pre = [] \<or> \<not> isalnum (last pre)"
  by (cases pre rule: rev_cases) (simp_all add: limite_def)

lemma limite_hd: "limite post \<longleftrightarrow> post = [] \<or> \<not> isalnum (hd post)"
  by (cases post) (simp_all add: limite_def)

lemma corrida_maximal_iff:
  "corrida_maximal t s \<longleftrightarrow>
     t \<noteq> [] \<and> (\<forall>ch \<in> set t. isalnum ch) \<and>
     (\<exists>pre post. s = pre @ t @ post \<and> (pre = [] \<or> \<not> isalnum (last pre)) \<and>
        (post = [] \<or> \<not> isalnum (hd post)))"
  (is "?L \<longleftrightarrow> ?R")
proof
  assume ?L
  then obtain k where t: "t \<noteq> []" "list_all isalnum t" and k: "k \<le> length s"
    and tk: "take (length t) (drop k s) = t" and l1: "limite (rev (take k s))"
    and l2: "limite (drop (k + length t) s)"
    by (auto simp: corrida_maximal_def list_ex_iff less_Suc_eq_le simp del: upt_Suc)
  have "s = take k s @ take (length t) (drop k s) @ drop (length t) (drop k s)"
    by (simp only: append_take_drop_id)
  then have "s = take k s @ t @ drop (k + length t) s"
    by (simp only: tk drop_drop add.commute)
  moreover from l1 have "take k s = [] \<or> \<not> isalnum (last (take k s))"
    by (simp only: limite_rev)
  moreover from l2 have "drop (k + length t) s = [] \<or> \<not> isalnum (hd (drop (k + length t) s))"
    by (simp only: limite_hd)
  moreover from t have "\<forall>ch \<in> set t. isalnum ch" by (simp only: list_all_iff)
  ultimately show ?R using t(1) by blast
next
  assume ?R
  then obtain pre post where t: "t \<noteq> []" "\<forall>ch \<in> set t. isalnum ch"
    and s: "s = pre @ t @ post" and l1: "pre = [] \<or> \<not> isalnum (last pre)"
    and l2: "post = [] \<or> \<not> isalnum (hd post)" by blast
  have k: "length pre \<in> set [0..<Suc (length s)]" unfolding s by (simp del: upt_Suc)
  have a: "take (length t) (drop (length pre) s) = t" unfolding s by simp
  have b: "limite (rev (take (length pre) s))" using l1 unfolding s by (simp add: limite_rev)
  have c: "limite (drop (length pre + length t) s)" using l2 unfolding s by (simp add: limite_hd)
  from k a b c have "list_ex (\<lambda>k. take (length t) (drop k s) = t \<and> limite (rev (take k s)) \<and>
                  limite (drop (k + length t) s)) [0..<Suc (length s)]"
    unfolding list_ex_iff by (intro bexI [of _ "length pre"] conjI)
  with t show ?L unfolding corrida_maximal_def list_all_iff by simp
qed

lemma corrida_separador:
  assumes acc: "\<forall>x \<in> set acc. isalnum x" and ch: "\<not> isalnum ch"
    and t: "t \<noteq> []" "\<forall>x \<in> set t. isalnum x"
  shows "corrida t (acc @ ch # resto) \<longleftrightarrow> t = acc \<or> corrida t resto"
proof
  assume "corrida t (acc @ ch # resto)"
  then obtain pre post where eq: "acc @ ch # resto = pre @ t @ post"
    and l1: "pre = [] \<or> \<not> isalnum (last pre)" and l2: "post = [] \<or> \<not> isalnum (hd post)"
    unfolding corrida_def by blast
  from eq consider
      (dentro) us where "acc = pre @ us" "us @ ch # resto = t @ post"
    | (fuera) us where "pre = acc @ us" "ch # resto = us @ t @ post"
    by (auto simp: append_eq_append_conv2)
  then show "t = acc \<or> corrida t resto"
  proof cases
    case dentro
    have pre: "pre = []"
    proof (rule ccontr)
      assume "pre \<noteq> []"
      then have "last pre \<in> set acc" using dentro(1) by simp
      with acc l1 \<open>pre \<noteq> []\<close> show False by blast
    qed
    from dentro(2) consider
        (a) vs where "us = t @ vs" "vs @ ch # resto = post"
      | (b) vs where "t = us @ vs" "ch # resto = vs @ post"
      by (auto simp: append_eq_append_conv2)
    then have "us = t"
    proof cases
      case a
      show ?thesis
      proof (cases vs)
        case Nil
        with a show ?thesis by simp
      next
        case (Cons v vs')
        with a dentro(1) have "hd post \<in> set acc" "post \<noteq> []" by auto
        with acc l2 show ?thesis by blast
      qed
    next
      case b
      show ?thesis
      proof (cases vs)
        case Nil
        with b show ?thesis by simp
      next
        case (Cons v vs')
        with b have "ch \<in> set t" by auto
        with t ch show ?thesis by blast
      qed
    qed
    with pre dentro(1) show ?thesis by simp
  next
    case fuera
    show ?thesis
    proof (cases us)
      case Nil
      with fuera(2) t(1) have "ch \<in> set t" by (cases t) auto
      with t ch show ?thesis by blast
    next
      case (Cons u us')
      with fuera(2) have u: "u = ch" and r: "resto = us' @ t @ post" by auto
      have "us' = [] \<or> \<not> isalnum (last us')"
        using l1 fuera(1) Cons by (cases "us' = []") auto
      with r l2 have "corrida t resto" unfolding corrida_def by blast
      then show ?thesis ..
    qed
  qed
next
  assume "t = acc \<or> corrida t resto"
  then show "corrida t (acc @ ch # resto)"
  proof
    assume "t = acc"
    then have "acc @ ch # resto = [] @ t @ (ch # resto) \<and> ([] = [] \<or> \<not> isalnum (last [])) \<and>
        (ch # resto = [] \<or> \<not> isalnum (hd (ch # resto)))"
      using ch by simp
    then show ?thesis unfolding corrida_def by (intro exI)
  next
    assume "corrida t resto"
    then obtain pre post where r: "resto = pre @ t @ post"
      and l1: "pre = [] \<or> \<not> isalnum (last pre)" and l2: "post = [] \<or> \<not> isalnum (hd post)"
      unfolding corrida_def by blast
    have "acc @ ch # resto = (acc @ ch # pre) @ t @ post" by (simp add: r)
    moreover have "\<not> isalnum (last (acc @ ch # pre))" using l1 ch by (cases "pre = []") simp_all
    ultimately have "acc @ ch # resto = (acc @ ch # pre) @ t @ post \<and>
        (acc @ ch # pre = [] \<or> \<not> isalnum (last (acc @ ch # pre))) \<and>
        (post = [] \<or> \<not> isalnum (hd post))"
      using l2 by simp
    then show ?thesis unfolding corrida_def by (intro exI)
  qed
qed

lemma corrida_final:
  assumes acc: "\<forall>x \<in> set acc. isalnum x" and t: "t \<noteq> []"
  shows "corrida t acc \<longleftrightarrow> t = acc"
proof
  assume "corrida t acc"
  then obtain pre post where eq: "acc = pre @ t @ post"
    and l1: "pre = [] \<or> \<not> isalnum (last pre)" and l2: "post = [] \<or> \<not> isalnum (hd post)"
    unfolding corrida_def by blast
  have "pre = []"
  proof (rule ccontr)
    assume "pre \<noteq> []"
    then have "last pre \<in> set acc" using eq by simp
    with acc l1 \<open>pre \<noteq> []\<close> show False by blast
  qed
  moreover have "post = []"
  proof (rule ccontr)
    assume "post \<noteq> []"
    then have "hd post \<in> set acc" using eq by simp
    with acc l2 \<open>post \<noteq> []\<close> show False by blast
  qed
  ultimately show "t = acc" using eq by simp
next
  assume "t = acc"
  then have "acc = [] @ t @ [] \<and> ([] = [] \<or> \<not> isalnum (last [])) \<and>
      ([] = [] \<or> \<not> isalnum (hd []))" by simp
  then show "corrida t acc" unfolding corrida_def by (intro exI)
qed

lemma palabras_alnum:
  "\<forall>x \<in> set acc. isalnum x \<Longrightarrow> t \<in> set (palabras s acc) \<Longrightarrow>
   t \<noteq> [] \<and> (\<forall>x \<in> set t. isalnum x)"
proof (induction s arbitrary: acc)
  case Nil
  then show ?case by (cases "acc = []") simp_all
next
  case (Cons ch s)
  have vac: "\<forall>x \<in> set ([]::string). isalnum x" by simp
  show ?case
  proof (cases "isalnum ch")
    case True
    with Cons.prems have a: "\<forall>x \<in> set (acc @ [ch]). isalnum x"
      and b: "t \<in> set (palabras s (acc @ [ch]))" by simp_all
    from Cons.IH [OF a b] show ?thesis .
  next
    case False
    with Cons.prems(2) have "(acc \<noteq> [] \<and> t = acc) \<or> t \<in> set (palabras s [])"
      by (cases "acc = []") simp_all
    then show ?thesis
    proof
      assume "acc \<noteq> [] \<and> t = acc"
      with Cons.prems(1) show ?thesis by simp
    next
      assume "t \<in> set (palabras s [])"
      from Cons.IH [OF vac this] show ?thesis .
    qed
  qed
qed

lemma palabras_corrida:
  assumes "\<forall>x \<in> set acc. isalnum x" and "t \<noteq> []" "\<forall>x \<in> set t. isalnum x"
  shows "t \<in> set (palabras s acc) \<longleftrightarrow> corrida t (acc @ s)"
  using assms(1)
proof (induction s arbitrary: acc)
  case Nil
  have "corrida t acc \<longleftrightarrow> t = acc" by (rule corrida_final [OF Nil assms(2)])
  then show ?case using assms(2) by (cases "acc = []") simp_all
next
  case (Cons ch s)
  show ?case
  proof (cases "isalnum ch")
    case True
    with Cons.prems have "\<forall>x \<in> set (acc @ [ch]). isalnum x" by simp
    from Cons.IH [OF this] True show ?thesis by simp
  next
    case False
    have vac: "\<forall>x \<in> set ([]::string). isalnum x" by simp
    from Cons.IH [OF vac] have ih: "t \<in> set (palabras s []) \<longleftrightarrow> corrida t s" by simp
    have sep: "corrida t (acc @ ch # s) \<longleftrightarrow> t = acc \<or> corrida t s"
      by (rule corrida_separador [OF Cons.prems False assms(2,3)])
    show ?thesis
    proof (cases "acc = []")
      case True
      with sep assms(2) have "corrida t (ch # s) \<longleftrightarrow> corrida t s" by simp
      with True False ih show ?thesis by simp
    next
      case nv: False
      with False sep ih show ?thesis by simp
    qed
  qed
qed

lemma palabras_corrida_maximal: "t \<in> set (palabras s []) \<longleftrightarrow> corrida_maximal t s"
proof (cases "t \<noteq> [] \<and> (\<forall>x \<in> set t. isalnum x)")
  case True
  then show ?thesis
    using palabras_corrida [of "[]" t s]
    by (simp add: corrida_maximal_iff corrida_def)
next
  case False
  have "t \<notin> set (palabras s [])" using palabras_alnum [of "[]" t s] False by auto
  moreover have "\<not> corrida_maximal t s" using False by (auto simp: corrida_maximal_iff)
  ultimately show ?thesis by simp
qed

section \<open>The tree after a run\<close>

lemma sorted_ejecutar: "sorted (map fecha (obtenerOrdenados (fst (ejecutar xs))))"
proof (induction xs rule: rev_induct)
  case Nil
  show ?case by (simp add: ejecutar_Nil obtenerOrdenados_Nulo)
next
  case (snoc x xs)
  obtain rem asu cue fec where x: "x = (rem, asu, cue, fec)" by (cases x)
  show ?case
    by (simp add: x ejecutar_snoc ingresar_eq obtenerOrdenados_insertar [OF snoc.IH]
        sorted_colocar [OF snoc.IH])
qed

lemma filter_ejecutar:
  "filter (\<lambda>c. fecha c = k) (obtenerOrdenados (fst (ejecutar xs))) =
   filter (\<lambda>c. fecha c = k) (creados programa_inicial xs)"
proof (induction xs rule: rev_induct)
  case Nil
  show ?case by (simp add: ejecutar_Nil obtenerOrdenados_Nulo)
next
  case (snoc x xs)
  obtain rem asu cue fec where x: "x = (rem, asu, cue, fec)" by (cases x)
  have "obtenerOrdenados (fst (ejecutar (xs @ [x]))) =
        colocar (fst (crearCorreo rem asu cue fec (snd (ejecutar xs))))
          (obtenerOrdenados (fst (ejecutar xs)))"
    by (simp add: x ejecutar_snoc ingresar_eq obtenerOrdenados_insertar [OF sorted_ejecutar])
  then show ?case using snoc.IH
    by (simp only: filter_colocar x creados_snoc filter_append)
qed

lemma mset_ejecutar:
  "mset (obtenerOrdenados (fst (ejecutar xs))) = mset (creados programa_inicial xs)"
proof (induction xs rule: rev_induct)
  case Nil
  show ?case by (simp add: ejecutar_Nil obtenerOrdenados_Nulo)
next
  case (snoc x xs)
  obtain rem asu cue fec where x: "x = (rem, asu, cue, fec)" by (cases x)
  show ?case using snoc.IH
    by (simp add: x ejecutar_snoc ingresar_eq obtenerOrdenados_insertar [OF sorted_ejecutar]
        mset_colocar creados_snoc)
qed

lemma sort_key_ejecutar:
  "obtenerOrdenados (fst (ejecutar xs)) = sort_key fecha (creados programa_inicial xs)"
proof (rule sym, rule properties_for_sort_key)
  show "mset (obtenerOrdenados (fst (ejecutar xs))) = mset (creados programa_inicial xs)"
    by (rule mset_ejecutar)
  show "sorted (map fecha (obtenerOrdenados (fst (ejecutar xs))))"
    by (rule sorted_ejecutar)
  fix k
  have e: "(\<lambda>x. fecha k = fecha x) = (\<lambda>x. fecha x = fecha k)" by (auto simp: fun_eq_iff)
  show "filter (\<lambda>x. fecha k = fecha x) (obtenerOrdenados (fst (ejecutar xs))) =
             filter (\<lambda>x. fecha k = fecha x) (creados programa_inicial xs)"
    unfolding e by (rule filter_ejecutar)
qed

lemma set_insertar:
  "set (obtenerOrdenados (insertar t c)) = insert c (set (obtenerOrdenados t))"
  by (induction t) (auto simp: obtenerOrdenados_Nulo obtenerOrdenados_Nodo)

lemma ordenado_insertar: "ordenado t \<Longrightarrow> ordenado (insertar t c)"
  by (induction t) (auto simp: list_all_iff set_insertar obtenerOrdenados_Nulo)

lemma nodos_insertar: "nodos (insertar t c) = Suc (nodos t)"
  by (induction t) auto

lemma ordenado_ejecutar: "ordenado (fst (ejecutar xs))"
proof (induction xs rule: rev_induct)
  case Nil
  show ?case by (simp add: ejecutar_Nil)
next
  case (snoc x xs)
  obtain rem asu cue fec where x: "x = (rem, asu, cue, fec)" by (cases x)
  show ?case by (simp add: x ejecutar_snoc ingresar_eq ordenado_insertar [OF snoc.IH])
qed

lemma nodos_ejecutar: "nodos (fst (ejecutar xs)) = length xs"
proof (induction xs rule: rev_induct)
  case Nil
  show ?case by (simp add: ejecutar_Nil)
next
  case (snoc x xs)
  obtain rem asu cue fec where x: "x = (rem, asu, cue, fec)" by (cases x)
  show ?case using snoc.IH by (simp add: x ejecutar_snoc ingresar_eq nodos_insertar)
qed

lemma map_int_upt: "map int [1..<Suc n] = [1..int n]"
proof (induction n)
  case 0
  show ?case by simp
next
  case (Suc n)
  have "[1..int (Suc n)] = [1..int n] @ [int (Suc n)]"
    using upto_rec2 [of 1 "int (Suc n)"] by simp
  then show ?case using Suc.IH by simp
qed

text \<open>
  In a run of fewer than \<open>2^31\<close> creations the counter has not wrapped: read as signed
  numbers, the identifiers given are 1, 2, ..., \<open>n\<close>.
\<close>

lemma sint_creados:
  assumes "length xs < 2 ^ 31"
  shows "map (\<lambda>c. sint (idCorreo c)) (creados programa_inicial xs) = [1..int (length xs)]"
proof -
  have "map (\<lambda>c. sint (idCorreo c)) (creados programa_inicial xs) =
        map sint (map idCorreo (creados programa_inicial xs))" by simp
  also have "\<dots> = map (\<lambda>k. sint (of_nat k :: entero)) [1..<Suc (length xs)]"
    by (simp only: idCorreo_creados map_map comp_def)
  also have "\<dots> = map int [1..<Suc (length xs)]"
  proof (rule map_cong [OF refl])
    fix k assume "k \<in> set [1..<Suc (length xs)]"
    then have "k < Suc (length xs)" by (simp only: set_upt atLeastLessThan_iff)
    with assms have "k < 2 ^ 31" by simp
    then show "sint (of_nat k :: entero) = int k" by (rule entero_sint)
  qed
  finally show ?thesis by (simp only: map_int_upt)
qed

lemma obtenerPorID_rango:
  assumes "length xs < 2 ^ 31"
  shows "(obtenerPorID (snd (ejecutar xs)) i \<noteq> None) = (1 \<le> sint i \<and> sint i \<le> int (length xs))"
proof -
  have dom: "(Mapping.lookup (correosPorID (snd (ejecutar xs))) i \<noteq> None) =
        (i \<in> of_nat ` {0<..length xs})"
    by (auto simp: keys_dom_lookup keys_porID_ejecutar [symmetric])
  have rango: "(i \<in> of_nat ` {0<..length xs}) = (1 \<le> sint i \<and> sint i \<le> int (length xs))"
  proof
    assume "i \<in> of_nat ` {0<..length xs}"
    then obtain k where k: "0 < k" "k \<le> length xs" "i = of_nat k" by auto
    with assms have "sint i = int k" by (simp add: entero_sint)
    with k show "1 \<le> sint i \<and> sint i \<le> int (length xs)" by simp
  next
    assume s: "1 \<le> sint i \<and> sint i \<le> int (length xs)"
    then have "i = of_nat (nat (sint i))" by simp
    moreover from s have "nat (sint i) \<in> {0<..length xs}" by auto
    ultimately show "i \<in> of_nat ` {0<..length xs}" by (rule image_eqI)
  qed
  have "i \<noteq> 0" if "1 \<le> sint i" using that by auto
  with dom rango show ?thesis by (auto simp: obtenerPorID_def)
qed

lemma nextID_sin_desbordar:
  "length xs < 2 ^ 31 - 1 \<Longrightarrow> sint (nextID (snd (ejecutar xs))) = int (length xs) + 1"
proof -
  assume "length xs < 2 ^ 31 - 1"
  then have "Suc (length xs) < 2 ^ 31" by simp
  then have "sint (of_nat (Suc (length xs)) :: entero) = int (Suc (length xs))"
    by (rule entero_sint)
  then show ?thesis by (simp add: nextID_ejecutar add.commute)
qed

section \<open>The loader is a sequence of creations\<close>

lemma cargarLinea_eq:
  "cargarLinea p linea = (if fst (campos linea) = [] then p else ingresar p (campos linea))"
  by (simp add: cargarLinea_def split: prod.splits)

lemma foldl_cargarLinea:
  "foldl cargarLinea p ls =
     foldl ingresar p (map campos (filter (\<lambda>l. fst (campos l) \<noteq> []) ls))"
  by (induction ls arbitrary: p) (simp_all add: cargarLinea_eq)

lemma cargarCorreosDesdeArchivo_eq:
  "cargarCorreosDesdeArchivo archivo p =
     foldl ingresar p
       (case archivo of None \<Rightarrow> []
        | Some contenido \<Rightarrow>
            map campos (filter (\<lambda>l. fst (campos l) \<noteq> []) (leerLineas contenido)))"
  by (cases archivo) (simp_all add: cargarCorreosDesdeArchivo_def foldl_cargarLinea)

lemma principal_ejecutar:
  "principal archivo =
     ejecutar
       ([(''juan@correo.com'', ''Reunion de equipo'',
          ''Reunion urgente ma'' @ [CHR 0xC3, CHR 0xB1] @ ''ana'', ''2025-11-10''),
         (''ana@correo.com'', ''Entrega de tarea'', ''La tarea esta lista'', ''2025-11-11''),
         (''luis@correo.com'', ''Proyecto nuevo'', ''Debemos entregar el reporte'', ''2025-11-09'')] @
        (case archivo of None \<Rightarrow> []
         | Some contenido \<Rightarrow>
             map campos (filter (\<lambda>l. fst (campos l) \<noteq> []) (leerLineas contenido))))"
  unfolding principal_def cargarCorreosDesdeArchivo_eq ejecutar_def foldl_append programa_inicial_def
  by simp

section \<open>The keyword search after a run\<close>

lemma terminos_corrida:
  "t \<in> terminos c \<longleftrightarrow> corrida_maximal t (aMinusculas (asunto c @ '' '' @ cuerpo c))"
  by (simp only: terminos_def palabras_corrida_maximal)

lemma buscarPalabra_corrida:
  assumes "length xs < 2 ^ 32"
  shows "buscarPalabraANSI (snd (ejecutar xs)) w =
     {c \<in> set (creados programa_inicial xs).
        corrida_maximal (aMinusculas w) (aMinusculas (asunto c @ '' '' @ cuerpo c))}"
  by (simp only: buscarPalabra_terminos [OF assms] terminos_corrida)

lemma resultados_corrida:
  "resultados (snd (ejecutar xs)) w =
     idCorreo ` {c \<in> set (creados programa_inicial xs).
        corrida_maximal (aMinusculas w) (aMinusculas (asunto c @ '' '' @ cuerpo c))}"
  by (simp only: resultados_ejecutar terminos_corrida)

lemma fila_alnum:
  assumes "t \<in> fila (matrizDispersa (snd (ejecutar xs))) i"
  shows "t \<noteq> [] \<and> list_all isalnum t"
proof -
  from assms obtain c where "t \<in> terminos c" by (auto simp: fila_ejecutar)
  then show ?thesis by (simp add: terminos_corrida corrida_maximal_def)
qed

lemma set_ordenados_ejecutar:
  "set (obtenerOrdenados (fst (ejecutar xs))) = set (creados programa_inicial xs)"
  using mset_ejecutar [of xs] by (rule mset_eq_setD)

lemma obtenerPorID_creados:
  assumes "length xs < 2 ^ 32" and "c \<in> set (creados programa_inicial xs)"
  shows "obtenerPorID (snd (ejecutar xs)) (idCorreo c) = Some c"
proof -
  from idCorreo_rango [OF assms(2)] obtain k
    where k: "0 < k" "k \<le> length xs" "idCorreo c = of_nat k" by blast
  with assms(1) have "idCorreo c \<noteq> 0" by (simp add: entero_no_cero)
  with porID_creados [OF assms] show ?thesis by (simp add: obtenerPorID_def)
qed

section \<open>The functions of the program and the words of the specification\<close>

lemma isalnum_es: "isalnum = es_alfanumerico"
proof -
  have "\<forall>ch. isalnum ch = es_alfanumerico ch" by code_simp
  then show ?thesis by (simp add: fun_eq_iff)
qed

lemma tolower_es: "tolower = en_minuscula"
proof -
  have "\<forall>ch. tolower ch = en_minuscula ch" by code_simp
  then show ?thesis by (simp add: fun_eq_iff)
qed

lemma aMinusculas_normalizar: "aMinusculas s = normalizar s"
  by (simp only: aMinusculas_def normalizar_def tolower_es)

lemma limite_borde: "limite s = borde s"
  by (simp only: limite_def borde_def isalnum_es)

lemma corrida_maximal_es_token: "corrida_maximal t s = es_token t s"
  by (simp only: corrida_maximal_def es_token_def limite_borde isalnum_es)

lemma es_token_iff:
  "es_token t s \<longleftrightarrow>
     t \<noteq> [] \<and> (\<forall>ch \<in> set t. es_alfanumerico ch) \<and>
     (\<exists>pre post. s = pre @ t @ post \<and> (pre = [] \<or> \<not> es_alfanumerico (last pre)) \<and>
        (post = [] \<or> \<not> es_alfanumerico (hd post)))"
  using corrida_maximal_iff [of t s] by (simp only: corrida_maximal_es_token isalnum_es)

lemma terminos_es_token:
  "aMinusculas w \<in> terminos c \<longleftrightarrow>
     es_token (normalizar w) (normalizar (asunto c @ '' '' @ cuerpo c))"
  by (simp only: terminos_corrida corrida_maximal_es_token aMinusculas_normalizar)

lemma resultados_es_token:
  "resultados (snd (ejecutar xs)) w =
     idCorreo ` {c \<in> set (registros xs).
        es_token (normalizar w) (normalizar (asunto c @ '' '' @ cuerpo c))}"
  by (simp only: resultados_ejecutar terminos_es_token creados_registros)

lemma buscarPalabra_es_token:
  assumes "length xs < 2 ^ 32"
  shows "buscarPalabraANSI (snd (ejecutar xs)) w =
     {c \<in> set (registros xs).
        es_token (normalizar w) (normalizar (asunto c @ '' '' @ cuerpo c))}"
  by (simp only: buscarPalabra_terminos [OF assms] terminos_es_token creados_registros)

section \<open>Runs in which the counter wraps\<close>

lemma numerar_append: "numerar k (xs @ ys) = numerar k xs @ numerar (k + length xs) ys"
  by (induction k xs rule: numerar.induct) auto

lemma terminos_vacio: "asunto c = [] \<Longrightarrow> cuerpo c = [] \<Longrightarrow> terminos c = {}"
proof -
  assume "asunto c = []" "cuerpo c = []"
  moreover have "palabras (aMinusculas ([] @ '' '' @ [])) [] = []" by code_simp
  ultimately show ?thesis by (simp only: terminos_def list.set)
qed

lemma nextID_lleno: "nextID (snd (ejecutar (replicate 4294967295 entrada_b))) = 0"
proof -
  have "nextID (snd (ejecutar (replicate 4294967295 entrada_b))) = of_nat 4294967295 + 1"
    by (simp only: nextID_ejecutar length_replicate)
  then show ?thesis by simp
qed

lemma crear_en_alcanzable:
  "fst (crearCorreo rem asu cue fec (snd (ejecutar xs))) =
     \<lparr>idCorreo = of_nat (length xs) + 1, remitente = rem, asunto = asu, cuerpo = cue,
      fecha = fec\<rparr>"
  by (simp only: crearCorreo_fst nextID_ejecutar)

lemma buscar_tras_crear:
  assumes "length xs < 2 ^ 32 - 1"
  shows "obtenerPorID (snd (crearCorreo rem asu cue fec (snd (ejecutar xs))))
     (idCorreo (fst (crearCorreo rem asu cue fec (snd (ejecutar xs))))) =
     Some (fst (crearCorreo rem asu cue fec (snd (ejecutar xs))))"
proof -
  from assms have "0 < Suc (length xs)" "Suc (length xs) < 2 ^ 32" by simp_all
  then have "(of_nat (Suc (length xs)) :: entero) \<noteq> 0" by (rule entero_no_cero)
  then have "nextID (snd (ejecutar xs)) \<noteq> 0" by (simp add: nextID_ejecutar add.commute)
  then show ?thesis by (simp add: obtenerPorID_def crearCorreo_porID crearCorreo_fst)
qed

lemma sint_tras_crear:
  assumes "length xs < 2 ^ 31 - 1"
  shows "sint (idCorreo (fst (crearCorreo rem asu cue fec (snd (ejecutar xs))))) =
     int (length xs) + 1"
  using nextID_sin_desbordar [OF assms] by (simp add: crearCorreo_fst)

lemma registros_reutilizado:
  "registros reutilizado =
     \<lparr>idCorreo = 1, remitente = ''a@x.com'', asunto = ''old'', cuerpo = [],
      fecha = ''2025-01-01''\<rparr> #
     numerar 2 (replicate 4294967295 entrada_b) @
     [\<lparr>idCorreo = 1, remitente = ''c@x.com'', asunto = ''new'', cuerpo = [],
       fecha = ''2025-01-03''\<rparr>]"
proof -
  have u: "(of_nat 1 :: entero) = 1" by simp
  have f: "(of_nat (2 + 4294967295) :: entero) = 1" by simp
  have "numerar 2 (replicate 4294967295 entrada_b @ [(''c@x.com'', ''new'', [], ''2025-01-03'')]) =
        numerar 2 (replicate 4294967295 entrada_b) @
        numerar (2 + 4294967295) [(''c@x.com'', ''new'', [], ''2025-01-03'')]"
    by (simp only: numerar_append length_replicate)
  also have "numerar (2 + 4294967295) [(''c@x.com'', ''new'', [], ''2025-01-03'')] =
        [\<lparr>idCorreo = 1, remitente = ''c@x.com'', asunto = ''new'', cuerpo = [],
          fecha = ''2025-01-03''\<rparr>]"
    by (simp only: numerar.simps f)
  finally have cola: "numerar 2 (replicate 4294967295 entrada_b @
        [(''c@x.com'', ''new'', [], ''2025-01-03'')]) =
        numerar 2 (replicate 4294967295 entrada_b) @
        [\<lparr>idCorreo = 1, remitente = ''c@x.com'', asunto = ''new'', cuerpo = [],
          fecha = ''2025-01-03''\<rparr>]" .
  have dos: "Suc 1 = 2" by simp
  show ?thesis
    by (simp only: registros_def reutilizado_def numerar.simps u dos cola)
qed

lemma terminos_relleno:
  assumes "c \<in> set (numerar 2 (replicate 4294967295 entrada_b))"
  shows "terminos c = {}"
proof -
  from campos_numerar [OF assms]
  have "(remitente c, asunto c, cuerpo c, fecha c) = entrada_b" by simp
  then have "asunto c = []" "cuerpo c = []" by (simp_all add: entrada_b_def)
  then show ?thesis by (rule terminos_vacio)
qed

lemma resultados_reutilizado: "resultados (snd (ejecutar reutilizado)) ''old'' = {1}"
proof -
  let ?viejo = "\<lparr>idCorreo = 1, remitente = ''a@x.com'', asunto = ''old'', cuerpo = [],
      fecha = ''2025-01-01''\<rparr>"
  let ?nuevo = "\<lparr>idCorreo = 1, remitente = ''c@x.com'', asunto = ''new'', cuerpo = [],
       fecha = ''2025-01-03''\<rparr>"
  have m: "aMinusculas ''old'' = ''old''" by code_simp
  have v: "''old'' \<in> terminos ?viejo" by code_simp
  have n: "''old'' \<notin> terminos ?nuevo" by code_simp
  have "{c \<in> set (registros reutilizado). ''old'' \<in> terminos c} = {?viejo}"
  proof (rule set_eqI)
    fix c
    show "c \<in> {c \<in> set (registros reutilizado). ''old'' \<in> terminos c} \<longleftrightarrow> c \<in> {?viejo}"
    proof
      assume "c \<in> {c \<in> set (registros reutilizado). ''old'' \<in> terminos c}"
      then have en: "c \<in> set (registros reutilizado)" and t: "''old'' \<in> terminos c"
        by simp_all
      from en have "c = ?viejo \<or> c \<in> set (numerar 2 (replicate 4294967295 entrada_b)) \<or>
          c = ?nuevo"
        by (simp only: registros_reutilizado list.set set_append Un_iff insert_iff empty_iff
            simp_thms)
      then show "c \<in> {?viejo}"
      proof (elim disjE)
        assume "c = ?viejo"
        then show ?thesis by (simp only: singletonI)
      next
        assume "c \<in> set (numerar 2 (replicate 4294967295 entrada_b))"
        then have "terminos c = {}" by (rule terminos_relleno)
        with t show ?thesis by (simp only: empty_iff)
      next
        assume "c = ?nuevo"
        with t n show ?thesis by (simp only:)
      qed
    next
      assume "c \<in> {?viejo}"
      then have c: "c = ?viejo" by (simp only: singleton_iff)
      have "?viejo \<in> set (registros reutilizado)"
        by (simp only: registros_reutilizado list.set insert_iff simp_thms)
      with v show "c \<in> {c \<in> set (registros reutilizado). ''old'' \<in> terminos c}"
        unfolding c by (intro CollectI conjI)
    qed
  qed
  then have "idCorreo ` {c \<in> set (registros reutilizado). ''old'' \<in> terminos c} = {1}"
    by (simp only: image_insert image_empty Correo.simps)
  then show ?thesis by (simp only: resultados_ejecutar creados_registros m)
qed

lemma porID_reutilizado:
  "Mapping.lookup (correosPorID (snd (ejecutar reutilizado))) 1 =
     Some \<lparr>idCorreo = 1, remitente = ''c@x.com'', asunto = ''new'', cuerpo = [],
           fecha = ''2025-01-03''\<rparr>"
proof -
  let ?ys = "(''a@x.com'', ''old'', [], ''2025-01-01'') # replicate 4294967295 entrada_b"
  have r: "reutilizado = ?ys @ [(''c@x.com'', ''new'', [], ''2025-01-03'')]"
    by (simp add: reutilizado_def)
  have "nextID (snd (ejecutar ?ys)) = of_nat (length ?ys) + 1" by (rule nextID_ejecutar)
  then have k: "nextID (snd (ejecutar ?ys)) = 1" by simp
  show ?thesis
    unfolding r ejecutar_snoc ingresar_eq
    by (simp add: crearCorreo_porID crearCorreo_fst k)
qed

lemma resultados_en_porID:
  "resultados (snd (ejecutar xs)) w \<subseteq> Mapping.keys (correosPorID (snd (ejecutar xs)))"
proof
  fix i assume "i \<in> resultados (snd (ejecutar xs)) w"
  then obtain c where c: "c \<in> set (creados programa_inicial xs)" and i: "i = idCorreo c"
    by (auto simp: resultados_ejecutar)
  from idCorreo_rango [OF c] obtain k
    where "0 < k" "k \<le> length xs" "idCorreo c = of_nat k" by blast
  then have "idCorreo c \<in> of_nat ` {0<..length xs}" by auto
  then show "i \<in> Mapping.keys (correosPorID (snd (ejecutar xs)))"
    by (simp only: i keys_porID_ejecutar)
qed

section \<open>The properties of the specification\<close>

text \<open>
  Claim C1, as the specification states it for every sequence of creations, does not
  hold: the counter has 32 bits. In the run \<open>reutilizado\<close> the first record has the
  word \<^verbatim>\<open>old\<close>, and the creation number \<open>2^32 + 1\<close> gets the identifier 1 again; its row is
  merged with the old one and it replaces the first record in \<^verbatim>\<open>correosPorID\<close>. The
  search for \<^verbatim>\<open>old\<close> then shows the new record, which has no such word, and does not
  show the first record, which has it.
\<close>

theorem C1_counterexample:
  "buscarPalabraANSI (snd (ejecutar reutilizado)) ''old'' =
     {\<lparr>idCorreo = 1, remitente = ''c@x.com'', asunto = ''new'', cuerpo = [],
       fecha = ''2025-01-03''\<rparr>} \<and>
   \<not> es_token (normalizar ''old'') (normalizar (''new'' @ '' '' @ [])) \<and>
   \<lparr>idCorreo = 1, remitente = ''a@x.com'', asunto = ''old'', cuerpo = [],
     fecha = ''2025-01-01''\<rparr> \<in> set (registros reutilizado) \<and>
   es_token (normalizar ''old'') (normalizar (''old'' @ '' '' @ []))"
proof -
  have a: "buscarPalabraANSI (snd (ejecutar reutilizado)) ''old'' =
     {\<lparr>idCorreo = 1, remitente = ''c@x.com'', asunto = ''new'', cuerpo = [],
       fecha = ''2025-01-03''\<rparr>}"
    by (simp add: buscarPalabraANSI_def resultados_reutilizado porID_reutilizado
        Mapping.lookup_default_def)
  have b: "\<not> es_token (normalizar ''old'') (normalizar (''new'' @ '' '' @ []))" by code_simp
  have c: "\<lparr>idCorreo = 1, remitente = ''a@x.com'', asunto = ''old'', cuerpo = [],
     fecha = ''2025-01-01''\<rparr> \<in> set (registros reutilizado)"
    by (simp only: registros_reutilizado list.set insert_iff simp_thms)
  have d: "es_token (normalizar ''old'') (normalizar (''old'' @ '' '' @ []))" by code_simp
  from a b c d show ?thesis by (intro conjI)
qed

text \<open>
  Claim C1, amended. The records created are those the inputs describe
  (\<open>registros\<close>). After every sequence of creations the identifiers that
  \<^verbatim>\<open>buscarPalabraANSI\<close> collects for a word \<open>w\<close> are those of the records in whose
  lower-cased \<open>asunto @ '' '' @ cuerpo\<close> the lower-cased \<open>w\<close> is a token, a maximal
  alphanumeric run; and after fewer than \<open>2^32\<close> creations the records shown are
  exactly these records. Lower-casing and tokens are those of the specification
  (\<open>normalizar\<close>, \<open>es_token\<close>), not the functions of the program.
\<close>

theorem C1_by_keyword:
  "creados programa_inicial xs = registros xs \<and>
   resultados (snd (ejecutar xs)) w =
     idCorreo ` {c \<in> set (registros xs).
        es_token (normalizar w) (normalizar (asunto c @ '' '' @ cuerpo c))} \<and>
   (length xs < 2 ^ 32 \<longrightarrow>
      buscarPalabraANSI (snd (ejecutar xs)) w =
        {c \<in> set (registros xs).
           es_token (normalizar w) (normalizar (asunto c @ '' '' @ cuerpo c))})"
  using creados_registros resultados_es_token buscarPalabra_es_token by blast

theorem C1_by_keyword_witness:
  "length escenario < 2 ^ 32 \<and>
   buscarPalabraANSI (snd (ejecutar escenario)) ''THERE'' =
     {c \<in> set (registros escenario).
        es_token (normalizar ''THERE'') (normalizar (asunto c @ '' '' @ cuerpo c))} \<and>
   Set.filter (\<lambda>c. es_token (normalizar ''THERE'') (normalizar (asunto c @ '' '' @ cuerpo c)))
     (set (registros escenario)) = {correo_a}"
proof -
  have h: "length escenario < 2 ^ 32" by (simp add: escenario_def)
  from C1_by_keyword [of escenario "''THERE''", THEN conjunct2, THEN conjunct2] h
  have r: "buscarPalabraANSI (snd (ejecutar escenario)) ''THERE'' =
     {c \<in> set (registros escenario).
        es_token (normalizar ''THERE'') (normalizar (asunto c @ '' '' @ cuerpo c))}"
    by (rule mp)
  have e: "Set.filter (\<lambda>c. es_token (normalizar ''THERE'') (normalizar (asunto c @ '' '' @ cuerpo c)))
     (set (registros escenario)) = {correo_a}" by code_simp
  from h r e show ?thesis by (intro conjI)
qed

text \<open>
  Claim C2. For every sequence of creations, \<^verbatim>\<open>obtenerOrdenados\<close> lists the records with
  their dates in non-decreasing order (the lexicographic order of strings); the
  records of one date appear in the order in which they were created; every created
  record appears exactly once. So the list is the stable sort by date of the records
  in the order of their creation.
\<close>

theorem C2_all_ordered:
  "sorted (map fecha (obtenerOrdenados (fst (ejecutar xs)))) \<and>
   (\<forall>k. filter (\<lambda>c. fecha c = k) (obtenerOrdenados (fst (ejecutar xs))) =
        filter (\<lambda>c. fecha c = k) (creados programa_inicial xs)) \<and>
   mset (obtenerOrdenados (fst (ejecutar xs))) = mset (creados programa_inicial xs) \<and>
   obtenerOrdenados (fst (ejecutar xs)) = sort_key fecha (creados programa_inicial xs)"
  using sorted_ejecutar filter_ejecutar mset_ejecutar sort_key_ejecutar by blast

text \<open>
  Claim C3, as the specification states it, does not hold: \<^verbatim>\<open>NodoCorreo\<close> holds one
  record and \<^verbatim>\<open>insertar\<close> has no case for equal dates. Two records of the same date
  give two nodes, the second in the right subtree of the first.
\<close>

theorem C3_counterexample:
  "fst (ejecutar [(''a@x.com'', ''Hi'', ''Hi there'', ''2025-01-01''),
                  (''b@x.com'', ''Yo'', ''Hi all'', ''2025-01-01'')]) =
     Nodo \<lparr>idCorreo = 1, remitente = ''a@x.com'', asunto = ''Hi'', cuerpo = ''Hi there'',
            fecha = ''2025-01-01''\<rparr>
       Nulo
       (Nodo \<lparr>idCorreo = 2, remitente = ''b@x.com'', asunto = ''Yo'', cuerpo = ''Hi all'',
               fecha = ''2025-01-01''\<rparr> Nulo Nulo) \<and>
   nodos (fst (ejecutar [(''a@x.com'', ''Hi'', ''Hi there'', ''2025-01-01''),
                         (''b@x.com'', ''Yo'', ''Hi all'', ''2025-01-01'')])) = 2"
  by code_simp

text \<open>
  Claim C3, amended. Every insertion adds exactly one node, so after \<open>n\<close> creations
  the tree has \<open>n\<close> nodes, one for each record; a record whose date is equal to the
  date of a node goes into the right subtree of that node; and after every sequence
  of creations each date in a left subtree is smaller than the date of the node
  above, each date in a right subtree is greater or equal.
\<close>

theorem C3_arbol_ordenado:
  "ordenado (fst (ejecutar xs)) \<and> nodos (fst (ejecutar xs)) = length xs \<and>
   nodos (insertar t c) = Suc (nodos t) \<and>
   (fecha c = fecha d \<longrightarrow> insertar (Nodo d l r) c = Nodo d l (insertar r c))"
  using ordenado_ejecutar nodos_ejecutar nodos_insertar by simp

theorem C3_arbol_ordenado_witness:
  "ordenado (fst (ejecutar [(''a@x.com'', ''Hi'', ''Hi there'', ''2025-01-01''),
                            (''b@x.com'', ''Yo'', ''Hi all'', ''2025-01-01'')])) \<and>
   nodos (fst (ejecutar [(''a@x.com'', ''Hi'', ''Hi there'', ''2025-01-01''),
                         (''b@x.com'', ''Yo'', ''Hi all'', ''2025-01-01'')])) = 2 \<and>
   fecha (correo_b\<lparr>fecha := ''2025-01-02''\<rparr>) = fecha correo_a \<and>
   insertar (Nodo correo_a Nulo Nulo) (correo_b\<lparr>fecha := ''2025-01-02''\<rparr>) =
     Nodo correo_a Nulo (Nodo (correo_b\<lparr>fecha := ''2025-01-02''\<rparr>) Nulo Nulo)"
proof -
  have h: "fecha (correo_b\<lparr>fecha := ''2025-01-02''\<rparr>) = fecha correo_a"
    by (simp add: correo_a_def)
  from C3_arbol_ordenado [of "[(''a@x.com'', ''Hi'', ''Hi there'', ''2025-01-01''),
      (''b@x.com'', ''Yo'', ''Hi all'', ''2025-01-01'')]" Nulo
      "correo_b\<lparr>fecha := ''2025-01-02''\<rparr>" correo_a Nulo Nulo] h
  show ?thesis by simp
qed

text \<open>
  Claim C4, as the specification states it, does not hold: \<^verbatim>\<open>crearCorreo\<close> checks
  nothing. Called with an empty sender from the initial state it returns the record
  with identifier 1, moves the counter to 2, and the record is then found in the
  tree, under the empty sender and under its words.
\<close>

theorem C4_counterexample:
  "creados programa_inicial [([], ''Hi'', ''Hi there'', ''2025-01-02'')] =
     [\<lparr>idCorreo = 1, remitente = [], asunto = ''Hi'', cuerpo = ''Hi there'', fecha = ''2025-01-02''\<rparr>] \<and>
   nextID (snd (ejecutar [])) = 1 \<and>
   nextID (snd (ejecutar [([], ''Hi'', ''Hi there'', ''2025-01-02'')])) = 2 \<and>
   obtenerOrdenados (fst (ejecutar [])) = [] \<and>
   obtenerOrdenados (fst (ejecutar [([], ''Hi'', ''Hi there'', ''2025-01-02'')])) =
     [\<lparr>idCorreo = 1, remitente = [], asunto = ''Hi'', cuerpo = ''Hi there'', fecha = ''2025-01-02''\<rparr>] \<and>
   buscarRemitenteANSI (snd (ejecutar [])) [] = [] \<and>
   buscarRemitenteANSI (snd (ejecutar [([], ''Hi'', ''Hi there'', ''2025-01-02'')])) [] =
     [\<lparr>idCorreo = 1, remitente = [], asunto = ''Hi'', cuerpo = ''Hi there'', fecha = ''2025-01-02''\<rparr>] \<and>
   buscarPalabraANSI (snd (ejecutar [])) ''hi'' = {} \<and>
   buscarPalabraANSI (snd (ejecutar [([], ''Hi'', ''Hi there'', ''2025-01-02'')])) ''hi'' =
     {\<lparr>idCorreo = 1, remitente = [], asunto = ''Hi'', cuerpo = ''Hi there'', fecha = ''2025-01-02''\<rparr>}"
  by code_simp

text \<open>
  Claim C4, amended. The check of the sender is in the loader: a line of the file
  whose first field is empty is skipped and leaves the whole state as it was (counter,
  tree and the three tables, hence every query); any other line is one creation; a
  file that cannot be opened changes nothing. \<^verbatim>\<open>crearCorreo\<close> itself has no failing path:
  with an empty sender it takes the next identifier like any other call.
\<close>

theorem C4_validacion_en_cargador:
  "(fst (campos linea) = [] \<longrightarrow> cargarLinea p linea = p) \<and>
   (fst (campos linea) \<noteq> [] \<longrightarrow> cargarLinea p linea = ingresar p (campos linea)) \<and>
   cargarCorreosDesdeArchivo None p = p \<and>
   cargarCorreosDesdeArchivo (Some contenido) p =
     foldl ingresar p (map campos (filter (\<lambda>l. fst (campos l) \<noteq> []) (leerLineas contenido))) \<and>
   fst (crearCorreo [] asu cue fec e) =
     \<lparr>idCorreo = nextID e, remitente = [], asunto = asu, cuerpo = cue, fecha = fec\<rparr> \<and>
   nextID (snd (crearCorreo [] asu cue fec e)) = nextID e + 1"
  by (simp add: cargarLinea_eq cargarCorreosDesdeArchivo_eq crearCorreo_fst crearCorreo_nextID)

theorem C4_validacion_en_cargador_witness:
  "fst (campos '';Hola;Mundo;2025-01-03'') = [] \<and>
   cargarLinea (ejecutar escenario) '';Hola;Mundo;2025-01-03'' = ejecutar escenario \<and>
   fst (campos ''c@x.com;Hola;Mundo;2025-01-03'') \<noteq> [] \<and>
   cargarLinea (ejecutar escenario) ''c@x.com;Hola;Mundo;2025-01-03'' =
     ingresar (ejecutar escenario) (''c@x.com'', ''Hola'', ''Mundo'', ''2025-01-03'')"
proof -
  have h1: "fst (campos '';Hola;Mundo;2025-01-03'') = []" by code_simp
  have h2: "campos ''c@x.com;Hola;Mundo;2025-01-03'' = (''c@x.com'', ''Hola'', ''Mundo'', ''2025-01-03'')"
    by code_simp
  then have h3: "fst (campos ''c@x.com;Hola;Mundo;2025-01-03'') \<noteq> []" by simp
  note t1 = C4_validacion_en_cargador [of "'';Hola;Mundo;2025-01-03''" "ejecutar escenario"]
  from t1 [THEN conjunct1] h1
  have r1: "cargarLinea (ejecutar escenario) '';Hola;Mundo;2025-01-03'' = ejecutar escenario"
    by (rule mp)
  note t2 = C4_validacion_en_cargador [of "''c@x.com;Hola;Mundo;2025-01-03''" "ejecutar escenario"]
  from t2 [THEN conjunct2, THEN conjunct1] h3
  have r2: "cargarLinea (ejecutar escenario) ''c@x.com;Hola;Mundo;2025-01-03'' =
     ingresar (ejecutar escenario) (campos ''c@x.com;Hola;Mundo;2025-01-03'')"
    by (rule mp)
  from r2 have r3: "cargarLinea (ejecutar escenario) ''c@x.com;Hola;Mundo;2025-01-03'' =
     ingresar (ejecutar escenario) (''c@x.com'', ''Hola'', ''Mundo'', ''2025-01-03'')"
    by (simp only: h2)
  from h1 r1 h3 r3 show ?thesis by (intro conjI)
qed


text \<open>
  Claim C6, as the specification states it for every input, does not hold: after
  \<open>2^32 - 1\<close> creations the counter has wrapped to 0, the next record gets the
  identifier 0, and the lookup by identifier refuses 0 (\<^verbatim>\<open>id != 0\<close>).
\<close>

theorem C6_counterexample:
  "idCorreo (fst (crearCorreo ''a@x.com'' ''Hi'' ''Hi there'' ''2025-01-02''
       (snd (ejecutar (replicate 4294967295 entrada_b))))) = 0 \<and>
   obtenerPorID
     (snd (crearCorreo ''a@x.com'' ''Hi'' ''Hi there'' ''2025-01-02''
       (snd (ejecutar (replicate 4294967295 entrada_b)))))
     (idCorreo (fst (crearCorreo ''a@x.com'' ''Hi'' ''Hi there'' ''2025-01-02''
       (snd (ejecutar (replicate 4294967295 entrada_b)))))) = None"
proof -
  have a: "idCorreo (fst (crearCorreo ''a@x.com'' ''Hi'' ''Hi there'' ''2025-01-02''
       (snd (ejecutar (replicate 4294967295 entrada_b))))) = 0"
    by (simp only: crearCorreo_fst nextID_lleno Correo.simps)
  have b: "obtenerPorID e 0 = None" for e by (simp add: obtenerPorID_def)
  from a b show ?thesis by (simp only: simp_thms)
qed

text \<open>
  Claim C6, amended. The record that \<^verbatim>\<open>crearCorreo\<close> returns always carries the four
  strings given and the 32-bit number of its creation. When fewer than \<open>2^32 - 1\<close>
  records were created before, the lookup of its identifier finds this very record;
  when fewer than \<open>2^31 - 1\<close> were, its identifier read as a signed number is the
  number of its creation. This holds for every input, so for every input with a sender
  that is not empty.
\<close>

theorem C6_get_by_id:
  "fst (crearCorreo rem asu cue fec (snd (ejecutar xs))) =
     \<lparr>idCorreo = of_nat (length xs) + 1, remitente = rem, asunto = asu, cuerpo = cue,
      fecha = fec\<rparr> \<and>
   (length xs < 2 ^ 32 - 1 \<longrightarrow>
      obtenerPorID (snd (crearCorreo rem asu cue fec (snd (ejecutar xs))))
        (idCorreo (fst (crearCorreo rem asu cue fec (snd (ejecutar xs))))) =
        Some (fst (crearCorreo rem asu cue fec (snd (ejecutar xs))))) \<and>
   (length xs < 2 ^ 31 - 1 \<longrightarrow>
      sint (idCorreo (fst (crearCorreo rem asu cue fec (snd (ejecutar xs))))) =
        int (length xs) + 1)"
  using crear_en_alcanzable buscar_tras_crear sint_tras_crear by blast

theorem C6_get_by_id_witness:
  "length escenario < 2 ^ 32 - 1 \<and>
   obtenerPorID (snd (crearCorreo ''c@x.com'' ''Hola'' ''Mundo'' ''2025-01-03'' (snd (ejecutar escenario))))
     (idCorreo (fst (crearCorreo ''c@x.com'' ''Hola'' ''Mundo'' ''2025-01-03'' (snd (ejecutar escenario))))) =
     Some (fst (crearCorreo ''c@x.com'' ''Hola'' ''Mundo'' ''2025-01-03'' (snd (ejecutar escenario)))) \<and>
   fst (crearCorreo ''c@x.com'' ''Hola'' ''Mundo'' ''2025-01-03'' (snd (ejecutar escenario))) =
     \<lparr>idCorreo = 3, remitente = ''c@x.com'', asunto = ''Hola'', cuerpo = ''Mundo'',
      fecha = ''2025-01-03''\<rparr>"
proof -
  have h: "length escenario < 2 ^ 32 - 1" by (simp add: escenario_def)
  note t = C6_get_by_id [of "''c@x.com''" "''Hola''" "''Mundo''" "''2025-01-03''" escenario]
  from t [THEN conjunct2, THEN conjunct1] h
  have r: "obtenerPorID (snd (crearCorreo ''c@x.com'' ''Hola'' ''Mundo'' ''2025-01-03'' (snd (ejecutar escenario))))
     (idCorreo (fst (crearCorreo ''c@x.com'' ''Hola'' ''Mundo'' ''2025-01-03'' (snd (ejecutar escenario))))) =
     Some (fst (crearCorreo ''c@x.com'' ''Hola'' ''Mundo'' ''2025-01-03'' (snd (ejecutar escenario))))"
    by (rule mp)
  have "(of_nat (length escenario) + 1 :: entero) = 3" by (simp add: escenario_def)
  with t [THEN conjunct1]
  have f: "fst (crearCorreo ''c@x.com'' ''Hola'' ''Mundo'' ''2025-01-03'' (snd (ejecutar escenario))) =
     \<lparr>idCorreo = 3, remitente = ''c@x.com'', asunto = ''Hola'', cuerpo = ''Mundo'',
      fecha = ''2025-01-03''\<rparr>" by simp
  from h r f show ?thesis by (intro conjI)
qed

text \<open>
  Claim C7, as the specification states it for every \<open>n\<close>, does not hold: the counter
  is a 32-bit \<^verbatim>\<open>int\<close>. The creation number \<open>2^31\<close> gets the identifier -2147483648, and
  the creation number \<open>2^32 + 1\<close> gets the identifier of the first creation again.
\<close>

theorem C7_counterexample:
  "sint (idCorreo (creados programa_inicial (replicate 2147483648 entrada_b) ! 2147483647)) =
     - 2147483648 \<and>
   idCorreo (creados programa_inicial (replicate 4294967297 entrada_b) ! 4294967296) =
     idCorreo (creados programa_inicial (replicate 4294967297 entrada_b) ! 0)"
proof -
  have "(2147483647::nat) < length (replicate 2147483648 entrada_b)"
    by simp
  then have "idCorreo (creados programa_inicial (replicate 2147483648 entrada_b) ! 2147483647) =
        of_nat (Suc 2147483647)" by (rule id_enesimo)
  then have a: "sint (idCorreo (creados programa_inicial (replicate 2147483648 entrada_b) ! 2147483647)) =
     - 2147483648" by simp
  have "(4294967296::nat) < length (replicate 4294967297 entrada_b)"
    by simp
  then have b: "idCorreo (creados programa_inicial (replicate 4294967297 entrada_b) ! 4294967296) =
        of_nat (Suc 4294967296)" by (rule id_enesimo)
  have "(0::nat) < length (replicate 4294967297 entrada_b)"
    by simp
  then have c: "idCorreo (creados programa_inicial (replicate 4294967297 entrada_b) ! 0) =
        of_nat (Suc 0)" by (rule id_enesimo)
  have "(of_nat (Suc 4294967296) :: entero) = of_nat (Suc 0)" by simp
  with b c have d: "idCorreo (creados programa_inicial (replicate 4294967297 entrada_b) ! 4294967296) =
     idCorreo (creados programa_inicial (replicate 4294967297 entrada_b) ! 0)" by (simp only:)
  from a d show ?thesis by (rule conjI)
qed

text \<open>
  Claim C7, amended. The counter starts at 1 and moves by one, in 32 bits, at each
  creation. After \<open>n\<close> creations with \<open>n < 2^31\<close> the identifiers given are 1, 2, ...,
  \<open>n\<close> in the order of the creations, they are pairwise different, and the lookup by
  identifier finds a record exactly for the identifiers from 1 to \<open>n\<close>.
\<close>

theorem C7_identificadores:
  "nextID estado_inicial = 1 \<and>
   nextID (snd (ejecutar xs)) = of_nat (length xs) + 1 \<and>
   map idCorreo (creados programa_inicial xs) = map of_nat [1..<Suc (length xs)] \<and>
   (length xs < 2 ^ 31 \<longrightarrow>
      map (\<lambda>c. sint (idCorreo c)) (creados programa_inicial xs) = [1..int (length xs)] \<and>
      distinct (map idCorreo (creados programa_inicial xs)) \<and>
      (\<forall>i. (obtenerPorID (snd (ejecutar xs)) i \<noteq> None) =
           (1 \<le> sint i \<and> sint i \<le> int (length xs))))"
proof -
  have a: "nextID estado_inicial = 1" by (simp add: estado_inicial_def)
  have b: "distinct (map idCorreo (creados programa_inicial xs))" if "length xs < 2 ^ 31"
  proof -
    from that have "length xs < 2 ^ 32" by simp
    then show ?thesis by (rule distinct_creados)
  qed
  from a b nextID_ejecutar idCorreo_creados sint_creados obtenerPorID_rango
  show ?thesis by blast
qed

theorem C7_identificadores_witness:
  "length escenario < 2 ^ 31 \<and>
   map (\<lambda>c. sint (idCorreo c)) (creados programa_inicial escenario) = [1..int (length escenario)] \<and>
   distinct (map idCorreo (creados programa_inicial escenario)) \<and>
   (obtenerPorID (snd (ejecutar escenario)) 2 \<noteq> None) =
     (1 \<le> sint (2::entero) \<and> sint (2::entero) \<le> int (length escenario)) \<and>
   (obtenerPorID (snd (ejecutar escenario)) 3 \<noteq> None) =
     (1 \<le> sint (3::entero) \<and> sint (3::entero) \<le> int (length escenario))"
proof -
  have h: "length escenario < 2 ^ 31" by (simp add: escenario_def)
  note t = C7_identificadores [of escenario, THEN conjunct2, THEN conjunct2, THEN conjunct2]
  from t h have r: "map (\<lambda>c. sint (idCorreo c)) (creados programa_inicial escenario) =
        [1..int (length escenario)] \<and>
      distinct (map idCorreo (creados programa_inicial escenario)) \<and>
      (\<forall>i. (obtenerPorID (snd (ejecutar escenario)) i \<noteq> None) =
           (1 \<le> sint i \<and> sint i \<le> int (length escenario)))" by (rule mp)
  from r [THEN conjunct2, THEN conjunct2]
  have r2: "(obtenerPorID (snd (ejecutar escenario)) 2 \<noteq> None) =
     (1 \<le> sint (2::entero) \<and> sint (2::entero) \<le> int (length escenario))" by (rule spec)
  from r [THEN conjunct2, THEN conjunct2]
  have r3: "(obtenerPorID (snd (ejecutar escenario)) 3 \<noteq> None) =
     (1 \<le> sint (3::entero) \<and> sint (3::entero) \<le> int (length escenario))" by (rule spec)
  from h r [THEN conjunct1] r [THEN conjunct2, THEN conjunct1] r2 r3 show ?thesis
    by (intro conjI)
qed

text \<open>
  Claim C8, as the specification states it, does not hold: the node of the tree and
  the list of a sender hold the whole record, not its identifier. After one creation
  both contain the subject and the body, and changing only the body of the input
  changes the tree and the list of the sender. And the copies can differ from the
  stored record: in the run \<open>reutilizado\<close>, where the identifier 1 is given twice, the
  tree keeps the first record while \<^verbatim>\<open>correosPorID\<close> has the last one under 1.
\<close>

theorem C8_counterexample:
  "fst (ejecutar [(''a@x.com'', ''Hi'', ''Hi there'', ''2025-01-02'')]) =
     Nodo \<lparr>idCorreo = 1, remitente = ''a@x.com'', asunto = ''Hi'', cuerpo = ''Hi there'',
            fecha = ''2025-01-02''\<rparr> Nulo Nulo \<and>
   Mapping.lookup (correosPorRemitente (snd (ejecutar [(''a@x.com'', ''Hi'', ''Hi there'', ''2025-01-02'')])))
       ''a@x.com'' =
     Some [\<lparr>idCorreo = 1, remitente = ''a@x.com'', asunto = ''Hi'', cuerpo = ''Hi there'',
             fecha = ''2025-01-02''\<rparr>] \<and>
   fst (ejecutar [(''a@x.com'', ''Hi'', ''Bye'', ''2025-01-02'')]) \<noteq>
     fst (ejecutar [(''a@x.com'', ''Hi'', ''Hi there'', ''2025-01-02'')]) \<and>
   Mapping.lookup (correosPorRemitente (snd (ejecutar [(''a@x.com'', ''Hi'', ''Bye'', ''2025-01-02'')])))
       ''a@x.com'' \<noteq>
     Mapping.lookup (correosPorRemitente (snd (ejecutar [(''a@x.com'', ''Hi'', ''Hi there'', ''2025-01-02'')])))
       ''a@x.com'' \<and>
   \<lparr>idCorreo = 1, remitente = ''a@x.com'', asunto = ''old'', cuerpo = [],
     fecha = ''2025-01-01''\<rparr> \<in> set (obtenerOrdenados (fst (ejecutar reutilizado))) \<and>
   obtenerPorID (snd (ejecutar reutilizado)) 1 =
     Some \<lparr>idCorreo = 1, remitente = ''c@x.com'', asunto = ''new'', cuerpo = [],
           fecha = ''2025-01-03''\<rparr>"
proof -
  have a: "fst (ejecutar [(''a@x.com'', ''Hi'', ''Hi there'', ''2025-01-02'')]) =
     Nodo \<lparr>idCorreo = 1, remitente = ''a@x.com'', asunto = ''Hi'', cuerpo = ''Hi there'',
            fecha = ''2025-01-02''\<rparr> Nulo Nulo \<and>
   Mapping.lookup (correosPorRemitente (snd (ejecutar [(''a@x.com'', ''Hi'', ''Hi there'', ''2025-01-02'')])))
       ''a@x.com'' =
     Some [\<lparr>idCorreo = 1, remitente = ''a@x.com'', asunto = ''Hi'', cuerpo = ''Hi there'',
             fecha = ''2025-01-02''\<rparr>] \<and>
   fst (ejecutar [(''a@x.com'', ''Hi'', ''Bye'', ''2025-01-02'')]) \<noteq>
     fst (ejecutar [(''a@x.com'', ''Hi'', ''Hi there'', ''2025-01-02'')]) \<and>
   Mapping.lookup (correosPorRemitente (snd (ejecutar [(''a@x.com'', ''Hi'', ''Bye'', ''2025-01-02'')])))
       ''a@x.com'' \<noteq>
     Mapping.lookup (correosPorRemitente (snd (ejecutar [(''a@x.com'', ''Hi'', ''Hi there'', ''2025-01-02'')])))
       ''a@x.com''"
    by code_simp
  have b: "\<lparr>idCorreo = 1, remitente = ''a@x.com'', asunto = ''old'', cuerpo = [],
     fecha = ''2025-01-01''\<rparr> \<in> set (obtenerOrdenados (fst (ejecutar reutilizado)))"
    by (simp only: set_ordenados_ejecutar creados_registros registros_reutilizado list.set
        insert_iff simp_thms)
  have c: "obtenerPorID (snd (ejecutar reutilizado)) 1 =
     Some \<lparr>idCorreo = 1, remitente = ''c@x.com'', asunto = ''new'', cuerpo = [],
           fecha = ''2025-01-03''\<rparr>"
    by (simp add: obtenerPorID_def porID_reutilizado)
  from a [THEN conjunct1] a [THEN conjunct2, THEN conjunct1]
    a [THEN conjunct2, THEN conjunct2, THEN conjunct1]
    a [THEN conjunct2, THEN conjunct2, THEN conjunct2] b c
  show ?thesis by (intro conjI)
qed

text \<open>
  Claim C8, amended. The tree and the table of senders hold copies of the records
  that the inputs describe, and only the matrix holds identifiers. After fewer than \<open>2^32\<close> creations each copy
  in the tree and in the list of any sender is equal to the record stored under its
  identifier in \<^verbatim>\<open>correosPorID\<close>. After every sequence of creations each identifier of
  the matrix, so each identifier a keyword search returns, is stored there.
\<close>

theorem C8_copias_coherentes:
  "set (obtenerOrdenados (fst (ejecutar xs))) = set (registros xs) \<and>
   (\<forall>s. buscarRemitenteANSI (snd (ejecutar xs)) s =
        filter (\<lambda>c. remitente c = s) (registros xs)) \<and>
   (length xs < 2 ^ 32 \<longrightarrow>
      (\<forall>c \<in> set (obtenerOrdenados (fst (ejecutar xs))).
         obtenerPorID (snd (ejecutar xs)) (idCorreo c) = Some c) \<and>
      (\<forall>s. \<forall>c \<in> set (buscarRemitenteANSI (snd (ejecutar xs)) s).
         obtenerPorID (snd (ejecutar xs)) (idCorreo c) = Some c)) \<and>
   (\<forall>w. resultados (snd (ejecutar xs)) w \<subseteq> Mapping.keys (correosPorID (snd (ejecutar xs)))) \<and>
   Mapping.keys (matrizDispersa (snd (ejecutar xs))) \<subseteq>
     Mapping.keys (correosPorID (snd (ejecutar xs)))"
proof -
  have a: "\<forall>c \<in> set (obtenerOrdenados (fst (ejecutar xs))).
      obtenerPorID (snd (ejecutar xs)) (idCorreo c) = Some c" if "length xs < 2 ^ 32"
    by (simp add: set_ordenados_ejecutar obtenerPorID_creados [OF that])
  have b: "\<forall>c \<in> set (buscarRemitenteANSI (snd (ejecutar xs)) s).
      obtenerPorID (snd (ejecutar xs)) (idCorreo c) = Some c" if "length xs < 2 ^ 32" for s
    by (simp add: buscarRemitente_ejecutar obtenerPorID_creados [OF that])
  have c: "set (obtenerOrdenados (fst (ejecutar xs))) = set (registros xs)"
    by (simp only: set_ordenados_ejecutar creados_registros)
  have d: "buscarRemitenteANSI (snd (ejecutar xs)) s =
        filter (\<lambda>c. remitente c = s) (registros xs)" for s
    by (simp only: buscarRemitente_ejecutar creados_registros)
  from a b c d resultados_en_porID [of xs] matriz_en_porID [of xs] show ?thesis by blast
qed

theorem C8_copias_coherentes_witness:
  "length escenario < 2 ^ 32 \<and>
   correo_a \<in> set (obtenerOrdenados (fst (ejecutar escenario))) \<and>
   correo_a \<in> set (buscarRemitenteANSI (snd (ejecutar escenario)) ''a@x.com'') \<and>
   obtenerPorID (snd (ejecutar escenario)) (idCorreo correo_a) = Some correo_a"
proof -
  have h: "length escenario < 2 ^ 32" by (simp add: escenario_def)
  have m1: "correo_a \<in> set (obtenerOrdenados (fst (ejecutar escenario)))" by code_simp
  have m2: "correo_a \<in> set (buscarRemitenteANSI (snd (ejecutar escenario)) ''a@x.com'')"
    by code_simp
  from C8_copias_coherentes [of escenario, THEN conjunct2, THEN conjunct2, THEN conjunct1] h
  have "(\<forall>c \<in> set (obtenerOrdenados (fst (ejecutar escenario))).
         obtenerPorID (snd (ejecutar escenario)) (idCorreo c) = Some c) \<and>
      (\<forall>s. \<forall>c \<in> set (buscarRemitenteANSI (snd (ejecutar escenario)) s).
         obtenerPorID (snd (ejecutar escenario)) (idCorreo c) = Some c)" by (rule mp)
  from this [THEN conjunct1] m1
  have r: "obtenerPorID (snd (ejecutar escenario)) (idCorreo correo_a) = Some correo_a"
    by (rule bspec)
  from h m1 m2 r show ?thesis by (intro conjI)
qed

text \<open>
  Claim C9. From the empty state, the two creations of the scenario return the records
  \<open>correo_a\<close> and \<open>correo_b\<close>; then the list by date is \<open>[correo_b, correo_a]\<close>, the
  sender \<^verbatim>\<open>a@x.com\<close> has \<open>[correo_a]\<close>, the word \<^verbatim>\<open>hi\<close> finds both records and the
  word \<^verbatim>\<open>there\<close> finds \<open>correo_a\<close> only.
\<close>

theorem C9_escenario:
  "creados programa_inicial escenario = [correo_a, correo_b] \<and>
   obtenerOrdenados (fst (ejecutar escenario)) = [correo_b, correo_a] \<and>
   buscarRemitenteANSI (snd (ejecutar escenario)) ''a@x.com'' = [correo_a] \<and>
   buscarPalabraANSI (snd (ejecutar escenario)) ''hi'' = {correo_a, correo_b} \<and>
   buscarPalabraANSI (snd (ejecutar escenario)) ''there'' = {correo_a}"
  by code_simp

text \<open>
  Claim C10. Every word stored in a row of the matrix is a non-empty string of
  alphanumeric characters. Hence a query whose lower-cased form is empty, or has a
  character that is not alphanumeric, finds no identifier and shows no record, after
  every sequence of creations.
\<close>

theorem C10_consulta_sin_termino:
  "(\<forall>i t. t \<in> fila (matrizDispersa (snd (ejecutar xs))) i \<longrightarrow> t \<noteq> [] \<and> list_all isalnum t) \<and>
   (aMinusculas w = [] \<or> \<not> list_all isalnum (aMinusculas w) \<longrightarrow>
      resultados (snd (ejecutar xs)) w = {} \<and> buscarPalabraANSI (snd (ejecutar xs)) w = {})"
proof -
  have a: "t \<noteq> [] \<and> list_all isalnum t"
    if "t \<in> fila (matrizDispersa (snd (ejecutar xs))) i" for i t
    using that by (rule fila_alnum)
  have b: "resultados (snd (ejecutar xs)) w = {} \<and> buscarPalabraANSI (snd (ejecutar xs)) w = {}"
    if "aMinusculas w = [] \<or> \<not> list_all isalnum (aMinusculas w)"
  proof -
    from that have no: "\<not> corrida_maximal (aMinusculas w) s" for s
      by (auto simp: corrida_maximal_def)
    have "resultados (snd (ejecutar xs)) w = {}" by (simp add: resultados_corrida no)
    then show ?thesis by (simp add: buscarPalabraANSI_def)
  qed
  from a b show ?thesis by blast
qed

theorem C10_consulta_sin_termino_witness:
  "''hi'' \<in> fila (matrizDispersa (snd (ejecutar escenario))) 1 \<and> list_all isalnum ''hi'' \<and>
   \<not> list_all isalnum (aMinusculas ''Hi there'') \<and>
   buscarPalabraANSI (snd (ejecutar escenario)) ''Hi there'' = {} \<and>
   aMinusculas [] = [] \<and> buscarPalabraANSI (snd (ejecutar escenario)) [] = {}"
proof -
  have f: "''hi'' \<in> fila (matrizDispersa (snd (ejecutar escenario))) 1" by code_simp
  have h1: "\<not> list_all isalnum (aMinusculas ''Hi there'')" by code_simp
  have h2: "aMinusculas [] = []" by code_simp
  from C10_consulta_sin_termino [of escenario "''Hi there''"] h1
  have r1: "buscarPalabraANSI (snd (ejecutar escenario)) ''Hi there'' = {}" by blast
  from C10_consulta_sin_termino [of escenario "[]"] h2
  have r2: "buscarPalabraANSI (snd (ejecutar escenario)) [] = {}" by blast
  from C10_consulta_sin_termino [of escenario "[]"] f
  have r3: "list_all isalnum ''hi''" by blast
  from f r3 h1 r1 h2 r2 show ?thesis by blast
qed

end
